theory Spec2Isabelle
  imports Complex_Main "HOL-Library.AList"
begin

section \<open>Go library functions used by the client\<close>

text \<open>
  Go strings are byte sequences; \<^typ>\<open>string\<close> (a list of 8-bit characters) is used for
  them. \<open>strings.Index(s, sep)\<close> is the byte offset of the first occurrence of \<open>sep\<close> in
  \<open>s\<close>, or \<open>-1\<close>; the model returns \<open>None\<close> for \<open>-1\<close>.
\<close>

fun strings_Index :: "string \<Rightarrow> string \<Rightarrow> nat option" where
  "strings_Index [] sep = (if sep = [] then Some 0 else None)"
| "strings_Index (c # cs) sep =
     (if take (length sep) (c # cs) = sep then Some 0
      else map_option Suc (strings_Index cs sep))"

lemma strings_Index_bound:
  "strings_Index s sep = Some i \<Longrightarrow> i + length sep \<le> length s"
proof (induction s arbitrary: i)
  case Nil
  then show ?case by (simp split: if_splits)
next
  case (Cons c cs)
  show ?case
  proof (cases "take (length sep) (c # cs) = sep")
    case True
    have "length (take (length sep) (c # cs)) = length sep"
      using True by simp
    then have "length sep \<le> length (c # cs)"
      by simp
    with True Cons.prems show ?thesis by simp
  next
    case False
    with Cons.prems obtain j where "strings_Index cs sep = Some j" "i = Suc j"
      by auto
    with Cons.IH show ?thesis by simp
  qed
qed

text \<open>
  \<open>strings.Count(s, substr)\<close>: the number of non-overlapping occurrences of \<open>substr\<close> in
  \<open>s\<close>, found by repeated \<open>Index\<close> from the end of the previous occurrence. For an empty
  \<open>substr\<close> Go returns the number of UTF-8 code points plus one; that branch is not reached
  by this program (its only call counts \<open>"/"\<close>) and is given here in bytes.
\<close>

function strings_Count :: "string \<Rightarrow> string \<Rightarrow> nat" where
  "strings_Count s substr =
     (if substr = [] then length s + 1
      else case strings_Index s substr of
             None \<Rightarrow> 0
           | Some i \<Rightarrow> 1 + strings_Count (drop (i + length substr) s) substr)"
  by pat_completeness auto
termination
proof (relation "measure (\<lambda>(s, substr). length s)")
  show "wf (measure (\<lambda>(s, substr). length s))" by simp
next
  fix s substr :: string and i :: nat
  assume ne: "substr \<noteq> []" and ix: "strings_Index s substr = Some i"
  from strings_Index_bound [OF ix] have "i + length substr \<le> length s" .
  with ne have "length (drop (i + length substr) s) < length s"
    by (cases substr) auto
  then show "((drop (i + length substr) s, substr), (s, substr))
      \<in> measure (\<lambda>(s, substr). length s)"
    by simp
qed

declare strings_Count.simps [simp del]

text \<open>
  \<open>strings.SplitN(s, sep, n)\<close> for a non-empty separator and \<open>n > 0\<close>: at most \<open>n\<close>
  pieces, the last one the unsplit remainder. \<open>genSplit\<close> first caps \<open>n\<close> at
  \<open>len(s) + 1\<close>, then cuts at most \<open>n - 1\<close> times at the first occurrence of \<open>sep\<close>.
  (\<open>n = 0\<close> gives no pieces. Negative \<open>n\<close> and the empty separator, which splits into UTF-8
  sequences, are not used by this program; \<open>n\<close> is a natural number here and the empty
  separator is left unsplit.)
\<close>

fun genSplit_loop :: "string \<Rightarrow> string \<Rightarrow> nat \<Rightarrow> string list" where
  "genSplit_loop s sep 0 = [s]"
| "genSplit_loop s sep (Suc k) =
     (case strings_Index s sep of
        None \<Rightarrow> [s]
      | Some m \<Rightarrow> take m s # genSplit_loop (drop (m + length sep) s) sep k)"

definition strings_SplitN :: "string \<Rightarrow> string \<Rightarrow> nat \<Rightarrow> string list" where
  "strings_SplitN s sep n =
     (if n = 0 then []
      else if sep = [] then [s]
      else genSplit_loop s sep (min n (length s + 1) - 1))"

section \<open>JSON values and the decoded data\<close>

text \<open>
  A JSON value as \<open>encoding/json\<close> sees it once the text of the body has been scanned:
  a number is still its literal, an object still has its keys in the order of the text,
  repeated ones included.
\<close>

datatype json =
    JNull
  | JBool bool
  | JNumber string
  | JString string
  | JArray "json list"
  | JObject "(string \<times> json) list"

text \<open>
  The dynamic values that decoding into an \<open>interface{}\<close> produces: \<open>nil\<close>, \<open>bool\<close>,
  \<open>float64\<close>, \<open>string\<close>, \<open>[]interface{}\<close> and \<open>map[string]interface{}\<close>. A \<open>float64\<close>
  is the real number it holds (JSON gives neither infinities nor NaN); a map is an
  association list with distinct keys.
\<close>

datatype go_value =
    GoNil
  | GoBool bool
  | GoFloat64 real
  | GoString string
  | GoSlice "go_value list"
  | GoMap "(string \<times> go_value) list"

text \<open>What \<open>fmt.Sprintf("%T", v)\<close> prints for such a value.\<close>

fun go_type_name :: "go_value \<Rightarrow> string" where
  "go_type_name GoNil = ''<nil>''"
| "go_type_name (GoBool b) = ''bool''"
| "go_type_name (GoFloat64 x) = ''float64''"
| "go_type_name (GoString s) = ''string''"
| "go_type_name (GoSlice xs) = ''[]interface {}''"
| "go_type_name (GoMap m) = ''map[string]interface {}''"

text \<open>How \<open>encoding/json\<close> names the kind of a JSON value in an \<open>UnmarshalTypeError\<close>.\<close>

fun json_kind :: "json \<Rightarrow> string" where
  "json_kind JNull = ''null''"
| "json_kind (JBool b) = ''bool''"
| "json_kind (JNumber r) = ''number''"
| "json_kind (JString s) = ''string''"
| "json_kind (JArray xs) = ''array''"
| "json_kind (JObject kvs) = ''object''"

text \<open>
  \<open>type Output struct { Value interface{}; Deprecated string; Warning string }\<close> and
  \<open>type Outputs map[string]Output\<close> (client.go, lines 94 to 100). The struct has these three
  fields and no other. A Go map has no order; \<open>Outputs\<close> is an association list whose keys
  are distinct, and the theorems about loops over it hold for every such list, hence for
  every order in which \<open>range\<close> may visit the map.
\<close>

record Output =
  Value :: go_value
  Deprecated :: string
  Warning :: string

type_synonym Outputs = "(string \<times> Output) list"

text \<open>
  \<open>type Stack struct\<close> with its JSON names \<open>id\<close>, \<open>name\<close>, \<open>url\<close>, \<open>used_by\<close>, and the
  entries of \<open>used_by\<close> (\<open>id\<close>, \<open>url\<close>, \<open>last_used_at\<close>). \<open>LastUsedAt\<close> is a \<open>time.Time\<close>,
  kept as the instant in nanoseconds since the Unix epoch.
\<close>

record UsedByEntry =
  UsedBy_Id :: string
  UsedBy_URL :: string
  LastUsedAt :: int

record Stack =
  Id :: string
  Name :: string
  URL :: string
  UsedBy :: "UsedByEntry list"

section \<open>Errors, requests and responses\<close>

text \<open>
  One constructor for each place an error value is made, carrying the arguments of its
  format string:
  \<^item> \<open>InvalidStackName s\<close>: \<open>fmt.Errorf("%q is not a valid stack name", s)\<close>;
  \<^item> \<open>UnknownScheme p\<close>: \<open>fmt.Errorf("unknown protocol scheme: %s", p)\<close>;
  \<^item> \<open>UnexpectedStatus n\<close>: \<open>fmt.Errorf("unexpected status code: %d", n)\<close>;
  \<^item> \<open>RequestError m\<close>: the error of \<open>http.NewRequest\<close> (the path is not a URL);
  \<^item> \<open>TransportError m\<close>: the error of \<open>http.Client.Do\<close>;
  \<^item> \<open>SyntaxError\<close>: the body does not start with a JSON value;
  \<^item> \<open>UnmarshalTypeError k t\<close>: a JSON value described as \<open>k\<close> (its kind, and for a
    number that overflows also its literal) where the Go type \<open>t\<close> cannot take it;
  \<^item> \<open>NilPointerPanic\<close>: the run-time panic of calling \<open>Do\<close> on a nil \<open>*http.Client\<close>.
\<close>

datatype error =
    InvalidStackName string
  | UnknownScheme string
  | UnexpectedStatus int
  | RequestError string
  | TransportError string
  | SyntaxError
  | UnmarshalTypeError string string
  | NilPointerPanic

text \<open>
  The request as \<open>doRequest\<close> builds it: the method and raw URL given to
  \<open>http.NewRequest\<close>, then \<open>URL.Scheme\<close>, \<open>URL.Host\<close> and \<open>Header\<close> as assigned. A
  header maps a canonical key to its values.
\<close>

type_synonym http_Header = "(string \<times> string list) list"

record Request =
  Method :: string
  RawURL :: string
  URL_Scheme :: string
  URL_Host :: string
  Header :: http_Header

text \<open>
  The response: its status code and its body. The body is \<open>Some j\<close> when it starts with
  the JSON value \<open>j\<close> (what \<open>Decoder.Decode\<close> reads), \<open>None\<close> when it does not (empty,
  truncated or malformed text).
\<close>

record Response =
  StatusCode :: int
  Body :: "json option"

text \<open>
  An \<open>*http.Client\<close> is what its \<open>Do\<close> answers to a request. The network is a log of
  the requests handed to \<open>Do\<close>, in order, and the number of response bodies not yet
  closed.
\<close>

type_synonym http_Client = "Request \<Rightarrow> error + Response"

record Net =
  issued :: "Request list"
  open_bodies :: nat

definition http_Do :: "http_Client \<Rightarrow> Request \<Rightarrow> Net \<Rightarrow> (error + Response) \<times> Net" where
  "http_Do h req net =
     (case h req of
        Inl err \<Rightarrow> (Inl err, net\<lparr>issued := issued net @ [req]\<rparr>)
      | Inr resp \<Rightarrow>
          (Inr resp, net\<lparr>issued := issued net @ [req], open_bodies := Suc (open_bodies net)\<rparr>))"

text \<open>
  \<open>http.NewRequest(method, url, nil)\<close> parses \<open>url\<close> and fails when it is not one. The
  URL grammar of \<open>net/url\<close> is a parameter: \<open>url_error u\<close> is the parse error of \<open>u\<close>, if
  any. No request is sent here.
\<close>

definition http_NewRequest :: "(string \<Rightarrow> string option) \<Rightarrow> string \<Rightarrow> string \<Rightarrow> error + Request" where
  "http_NewRequest url_error method url =
     (case url_error url of
        Some m \<Rightarrow> Inl (RequestError m)
      | None \<Rightarrow>
          Inr \<lparr>Method = method, RawURL = url, URL_Scheme = [], URL_Host = [], Header = []\<rparr>)"

section \<open>Configuration and client construction\<close>

record Config =
  Address :: string
  Scheme :: string
  Stack :: string
  HttpClient :: "http_Client option"

text \<open>
  \<open>os.Getenv\<close> over the process environment, a list of name and value pairs: the value
  of the first entry of that name, and the empty string when the variable is not set.
\<close>

definition os_Getenv :: "(string \<times> string) list \<Rightarrow> string \<Rightarrow> string" where
  "os_Getenv environ name = (case map_of environ name of Some v \<Rightarrow> v | None \<Rightarrow> [])"

text \<open>
  \<open>DefaultConfig\<close> (client.go, lines 22 to 39). \<open>pooled\<close> stands for the client that
  \<open>cleanhttp.DefaultPooledClient()\<close> returns.
\<close>

definition DefaultConfig :: "(string \<times> string) list \<Rightarrow> http_Client \<Rightarrow> Config" where
  "DefaultConfig environ pooled =
     (let cfg = \<lparr>Address = [], Scheme = ''https'', Stack = [], HttpClient = Some pooled\<rparr>;
          addr = os_Getenv environ ''watson_ADDRESS'';
          cfg = (if addr \<noteq> [] then cfg\<lparr>Address := addr\<rparr> else cfg);
          scheme = os_Getenv environ ''watson_SCHEME'';
          cfg = (if scheme \<noteq> [] then cfg\<lparr>Scheme := scheme\<rparr> else cfg);
          stack = os_Getenv environ ''watson_STACK'';
          cfg = (if stack \<noteq> [] then cfg\<lparr>Stack := stack\<rparr> else cfg)
      in cfg)"

record Client =
  config :: Config
  headers :: http_Header

text \<open>
  \<open>http.Header.Set\<close> stores the value under the canonical form of the key; for
  \<open>"x-watson-stack"\<close> that is \<open>"X-Watson-Stack"\<close>.
\<close>

definition make_headers :: "Config \<Rightarrow> http_Header" where
  "make_headers cfg = (if Stack cfg \<noteq> [] then [(''X-Watson-Stack'', [Stack cfg])] else [])"

text \<open>
  \<open>NewClient\<close> (client.go, lines 46 to 80). The argument is a pointer and the function
  assigns to its fields, so the model returns, beside the result, the \<open>Config\<close> the caller
  holds afterwards. The client keeps a copy of it (\<open>config: *config\<close>).
\<close>

definition NewClient ::
  "(string \<times> string) list \<Rightarrow> http_Client \<Rightarrow> Config \<Rightarrow> (error + Client) \<times> Config" where
  "NewClient environ pooled cfg0 =
     (let defConfig = DefaultConfig environ pooled;
          cfg = (if Address cfg0 = [] then cfg0\<lparr>Address := Address defConfig\<rparr> else cfg0);
          cfg = (if Scheme cfg = [] then cfg\<lparr>Scheme := Scheme defConfig\<rparr> else cfg);
          cfg = (if Stack cfg = [] then cfg\<lparr>Stack := Stack defConfig\<rparr> else cfg);
          cfg = (if HttpClient cfg = None then cfg\<lparr>HttpClient := HttpClient defConfig\<rparr> else cfg);
          parts = strings_SplitN (Address cfg) ''://'' 2
      in if length parts = 2 then
           (if parts ! 0 = ''http'' then
              (let cfg = cfg\<lparr>Scheme := ''http'', Address := parts ! 1\<rparr>
               in (Inr \<lparr>config = cfg, headers = make_headers cfg\<rparr>, cfg))
            else if parts ! 0 = ''https'' then
              (let cfg = cfg\<lparr>Scheme := ''https'', Address := parts ! 1\<rparr>
               in (Inr \<lparr>config = cfg, headers = make_headers cfg\<rparr>, cfg))
            else (Inl (UnknownScheme (parts ! 0)), cfg))
         else (Inr \<lparr>config = cfg, headers = make_headers cfg\<rparr>, cfg))"

section \<open>The stack client\<close>

text \<open>
  \<open>validateStackName\<close> (client.go, lines 102 to 108): \<open>None\<close> is the \<open>nil\<close> error.
\<close>

definition validateStackName :: "string \<Rightarrow> error option" where
  "validateStackName stack =
     (if strings_Count stack ''/'' \<noteq> 1 then Some (InvalidStackName stack) else None)"

text \<open>
  \<open>doRequest\<close> (client.go, lines 83 to 92). A \<open>Client\<close> made by \<open>NewClient\<close> always has
  an \<open>HttpClient\<close>; calling \<open>Do\<close> on a nil one panics.
\<close>

definition doRequest ::
  "(string \<Rightarrow> string option) \<Rightarrow> Client \<Rightarrow> string \<Rightarrow> Net \<Rightarrow> (error + Response) \<times> Net" where
  "doRequest url_error c path net =
     (case http_NewRequest url_error ''GET'' path of
        Inl err \<Rightarrow> (Inl err, net)
      | Inr req \<Rightarrow>
          (let req = req\<lparr>URL_Scheme := Scheme (config c), URL_Host := Address (config c),
                         Header := headers c\<rparr>
           in case HttpClient (config c) of
                None \<Rightarrow> (Inl NilPointerPanic, net)
              | Some h \<Rightarrow> http_Do h req net))"

text \<open>\<open>closeResponseBody\<close> (client.go, lines 175 to 178): drains and closes the body.\<close>

definition closeResponseBody :: "Net \<Rightarrow> Net" where
  "closeResponseBody net = net\<lparr>open_bodies := open_bodies net - 1\<rparr>"

subsection \<open>Decoding the outputs\<close>

text \<open>
  \<open>encoding/json\<close> finds the struct field of an object key by exact name first and by
  case-folded name otherwise. The fields of \<open>Output\<close> carry no tag, so their JSON names
  are \<open>Value\<close>, \<open>Deprecated\<close> and \<open>Warning\<close>. Folding maps ASCII letters to upper case;
  the only other characters that fold to an ASCII letter fold to \<open>K\<close> and \<open>S\<close>, which
  these names do not contain, so folding ASCII is exact here.
\<close>

definition ascii_upper :: "char \<Rightarrow> char" where
  "ascii_upper c =
     (case map_of (zip ''abcdefghijklmnopqrstuvwxyz'' ''ABCDEFGHIJKLMNOPQRSTUVWXYZ'') c of
        Some u \<Rightarrow> u
      | None \<Rightarrow> c)"

definition foldName :: "string \<Rightarrow> string" where
  "foldName s = map ascii_upper s"

definition Output_fields :: "string list" where
  "Output_fields = [''Value'', ''Deprecated'', ''Warning'']"

definition Output_field :: "string \<Rightarrow> string option" where
  "Output_field key =
     (if key \<in> set Output_fields then Some key
      else find (\<lambda>f. foldName f = foldName key) Output_fields)"

text \<open>
  Storing a JSON value into a Go \<open>string\<close>: \<open>null\<close> leaves the string as it is, a JSON
  string replaces it, anything else is an \<open>UnmarshalTypeError\<close>.
\<close>

fun store_string :: "string \<Rightarrow> json \<Rightarrow> error + string" where
  "store_string cur JNull = Inr cur"
| "store_string cur (JString s) = Inr s"
| "store_string cur j = Inl (UnmarshalTypeError (json_kind j) ''string'')"

text \<open>
  Decoding a JSON value into an \<open>interface{}\<close>. A number goes through
  \<open>strconv.ParseFloat(literal, 64)\<close>, the parameter \<open>parse_float\<close>: the \<open>float64\<close>
  nearest to the literal, or \<open>None\<close> when the literal is out of range, which is an
  \<open>UnmarshalTypeError\<close> naming the literal. An array becomes a slice of its decoded
  elements. An object becomes a map, so of a repeated key the last value stays. The first
  error in the order of the text is the one reported.
\<close>

fun collect :: "(error + 'a) list \<Rightarrow> error + 'a list" where
  "collect [] = Inr []"
| "collect (Inl err # rs) = Inl err"
| "collect (Inr v # rs) =
     (case collect rs of Inl err \<Rightarrow> Inl err | Inr vs \<Rightarrow> Inr (v # vs))"

fun collect_map ::
  "(string \<times> (error + 'a)) list \<Rightarrow> (string \<times> 'a) list \<Rightarrow> error + (string \<times> 'a) list" where
  "collect_map [] m = Inr m"
| "collect_map ((key, Inl err) # rs) m = Inl err"
| "collect_map ((key, Inr v) # rs) m = collect_map rs (AList.update key v m)"

primrec valueInterface :: "(string \<Rightarrow> real option) \<Rightarrow> json \<Rightarrow> error + go_value" where
  "valueInterface parse_float JNull = Inr GoNil"
| "valueInterface parse_float (JBool b) = Inr (GoBool b)"
| "valueInterface parse_float (JNumber lit) =
     (case parse_float lit of
        None \<Rightarrow> Inl (UnmarshalTypeError (''number '' @ lit) ''float64'')
      | Some x \<Rightarrow> Inr (GoFloat64 x))"
| "valueInterface parse_float (JString s) = Inr (GoString s)"
| "valueInterface parse_float (JArray xs) =
     (case collect (map (valueInterface parse_float) xs) of
        Inl err \<Rightarrow> Inl err
      | Inr vs \<Rightarrow> Inr (GoSlice vs))"
| "valueInterface parse_float (JObject kvs) =
     (case collect_map (map (map_prod id (valueInterface parse_float)) kvs) [] of
        Inl err \<Rightarrow> Inl err
      | Inr m \<Rightarrow> Inr (GoMap m))"

text \<open>
  One key of an object decoded into an \<open>Output\<close>: a key that names no field is skipped,
  its value not converted (that is where a \<open>sensitive\<close> key goes); \<open>Value\<close> takes any
  JSON value, decoded as an \<open>interface{}\<close>.
\<close>

definition Output_set_field ::
  "(string \<Rightarrow> real option) \<Rightarrow> Output \<Rightarrow> string \<Rightarrow> json \<Rightarrow> error + Output" where
  "Output_set_field parse_float out key j =
     (case Output_field key of
        None \<Rightarrow> Inr out
      | Some f \<Rightarrow>
          if f = ''Value'' then
            (case valueInterface parse_float j of
               Inl err \<Rightarrow> Inl err
             | Inr v \<Rightarrow> Inr (out\<lparr>Value := v\<rparr>))
          else if f = ''Deprecated'' then
            (case store_string (Deprecated out) j of
               Inl err \<Rightarrow> Inl err
             | Inr s \<Rightarrow> Inr (out\<lparr>Deprecated := s\<rparr>))
          else
            (case store_string (Warning out) j of
               Inl err \<Rightarrow> Inl err
             | Inr s \<Rightarrow> Inr (out\<lparr>Warning := s\<rparr>)))"

text \<open>
  The decoder records the first type error and reads on; the caller then drops what was
  decoded. Stopping at the first error gives the same result.
\<close>

fun decode_fields ::
  "(string \<Rightarrow> real option) \<Rightarrow> Output \<Rightarrow> (string \<times> json) list \<Rightarrow> error + Output" where
  "decode_fields parse_float out [] = Inr out"
| "decode_fields parse_float out ((key, j) # kvs) =
     (case Output_set_field parse_float out key j of
        Inl err \<Rightarrow> Inl err
      | Inr out' \<Rightarrow> decode_fields parse_float out' kvs)"

definition zero_Output :: Output where
  "zero_Output = \<lparr>Value = GoNil, Deprecated = [], Warning = []\<rparr>"

definition decode_Output :: "(string \<Rightarrow> real option) \<Rightarrow> json \<Rightarrow> error + Output" where
  "decode_Output parse_float j =
     (case j of
        JNull \<Rightarrow> Inr zero_Output
      | JObject kvs \<Rightarrow> decode_fields parse_float zero_Output kvs
      | _ \<Rightarrow> Inl (UnmarshalTypeError (json_kind j) ''client.Output''))"

text \<open>
  Each entry of the outer object is decoded into a fresh \<open>Output\<close> and stored under its
  key; a repeated key replaces the earlier entry.
\<close>

fun decode_entries ::
  "(string \<Rightarrow> real option) \<Rightarrow> Outputs \<Rightarrow> (string \<times> json) list \<Rightarrow> error + Outputs" where
  "decode_entries parse_float m [] = Inr m"
| "decode_entries parse_float m ((key, j) # kvs) =
     (case decode_Output parse_float j of
        Inl err \<Rightarrow> Inl err
      | Inr out \<Rightarrow> decode_entries parse_float (AList.update key out m) kvs)"

text \<open>
  \<open>json.NewDecoder(resp.Body).Decode(&outputs)\<close> with \<open>outputs\<close> a nil \<open>Outputs\<close>:
  \<open>null\<close> leaves the map nil (no entries).
\<close>

definition json_Decode_Outputs ::
  "(string \<Rightarrow> real option) \<Rightarrow> json option \<Rightarrow> error + Outputs" where
  "json_Decode_Outputs parse_float body =
     (case body of
        None \<Rightarrow> Inl SyntaxError
      | Some JNull \<Rightarrow> Inr []
      | Some (JObject kvs) \<Rightarrow> decode_entries parse_float [] kvs
      | Some j \<Rightarrow> Inl (UnmarshalTypeError (json_kind j) ''client.Outputs''))"

subsection \<open>The two operations\<close>

text \<open>
  \<open>GetOutputs\<close> (client.go, lines 110 to 135). The result is \<open>Inl err\<close> for
  \<open>(nil, err)\<close>, \<open>Inr None\<close> for \<open>(nil, nil)\<close> and \<open>Inr (Some outputs)\<close> for
  \<open>(&outputs, nil)\<close>. The deferred \<open>closeResponseBody\<close> runs on every return after the
  response has arrived.
\<close>

definition GetOutputs ::
  "(string \<Rightarrow> string option) \<Rightarrow> (string \<Rightarrow> real option) \<Rightarrow> Client \<Rightarrow> string \<Rightarrow> Net
     \<Rightarrow> (error + Outputs option) \<times> Net" where
  "GetOutputs url_error parse_float c stack net =
     (case validateStackName stack of
        Some err \<Rightarrow> (Inl err, net)
      | None \<Rightarrow>
          (case doRequest url_error c (''/v1/projects/'' @ stack @ ''/outputs/'') net of
             (Inl err, net') \<Rightarrow> (Inl err, net')
           | (Inr resp, net') \<Rightarrow>
               (let net'' = closeResponseBody net'
                in if StatusCode resp = 200 then
                     (case json_Decode_Outputs parse_float (Body resp) of
                        Inl err \<Rightarrow> (Inl err, net'')
                      | Inr outputs \<Rightarrow> (Inr (Some outputs), net''))
                   else if StatusCode resp = 404 then (Inr None, net'')
                   else (Inl (UnexpectedStatus (StatusCode resp)), net''))))"

text \<open>
  \<open>GetStack\<close> (client.go, lines 148 to 173). Decoding the body into a \<open>Stack\<close> (tagged
  fields, a slice of structs, RFC 3339 times) is left to \<open>encoding/json\<close> and \<open>time\<close>:
  \<open>decode_Stack\<close> is what \<open>Decode(&s)\<close> does with the body.
\<close>

definition GetStack ::
  "(string \<Rightarrow> string option) \<Rightarrow> (json option \<Rightarrow> error + Stack) \<Rightarrow> Client \<Rightarrow> string \<Rightarrow> Net
     \<Rightarrow> (error + Stack option) \<times> Net" where
  "GetStack url_error decode_Stack c stack net =
     (case validateStackName stack of
        Some err \<Rightarrow> (Inl err, net)
      | None \<Rightarrow>
          (case doRequest url_error c (''/v1/projects/'' @ stack @ ''/'') net of
             (Inl err, net') \<Rightarrow> (Inl err, net')
           | (Inr resp, net') \<Rightarrow>
               (let net'' = closeResponseBody net'
                in if StatusCode resp = 200 then
                     (case decode_Stack (Body resp) of
                        Inl err \<Rightarrow> (Inl err, net'')
                      | Inr s \<Rightarrow> (Inr (Some s), net''))
                   else if StatusCode resp = 404 then (Inr None, net'')
                   else (Inl (UnexpectedStatus (StatusCode resp)), net''))))"

section \<open>The outputs data source\<close>

text \<open>
  The object stored for an output (\<open>value\<close>, \<open>deprecated\<close>, \<open>warning\<close>, \<open>sensitive\<close>), the
  model saved to the state (\<open>id\<close>, \<open>stack\<close>, \<open>outputs\<close>), and the diagnostics, one
  constructor for each call that adds one:
  \<^item> \<open>ReadFailed err\<close>: \<open>AddError("Failed to read outputs of ...", err.Error())\<close>;
  \<^item> \<open>UnknownStack s\<close>: \<open>AddError("Unknown stack", "No stack named %q could be found")\<close>;
  \<^item> \<open>IgnoredOutput k t\<close>:
    \<open>AddWarning("ignored output", "output %q has type %T and is ignored for now")\<close>;
  \<^item> \<open>OutputDeprecated k d\<close>: \<open>AddWarning("Output %s is deprecated", v.Deprecated)\<close>;
  \<^item> \<open>OutputHasWarning k w\<close>: \<open>AddWarning("The output %s has a warning", v.Warning)\<close>.
\<close>

record ObjectValue =
  attr_value :: string
  attr_deprecated :: string
  attr_warning :: string
  attr_sensitive :: bool

record OutputsDataSourceModel =
  Model_Id :: string
  Model_Stack :: string
  Model_Outputs :: "string \<rightharpoonup> ObjectValue"

datatype diagnostic =
    ReadFailed error
  | UnknownStack string
  | IgnoredOutput string string
  | OutputDeprecated string string
  | OutputHasWarning string string

fun is_error_diagnostic :: "diagnostic \<Rightarrow> bool" where
  "is_error_diagnostic (ReadFailed err) = True"
| "is_error_diagnostic (UnknownStack s) = True"
| "is_error_diagnostic d = False"

definition HasError :: "diagnostic list \<Rightarrow> bool" where
  "HasError ds = list_ex is_error_diagnostic ds"

text \<open>
  The body of the loop of \<open>Read\<close> (watson_data_outputs.go, lines 118 to 147) for one
  entry. The loop reads \<open>v.Sensitive\<close>, a field that \<open>Output\<close> does not declare; what
  that expression yields is the parameter \<open>sens\<close>. Both advisory warnings are guarded by
  \<open>v.Deprecated != ""\<close>, as in the source.
\<close>

definition Read_entry ::
  "(Output \<Rightarrow> bool) \<Rightarrow> string \<Rightarrow> Output \<Rightarrow> (string \<rightharpoonup> ObjectValue) \<times> diagnostic list
     \<Rightarrow> (string \<rightharpoonup> ObjectValue) \<times> diagnostic list" where
  "Read_entry sens k v acc =
     (let (result, diags) = acc;
          (result, diags) =
            (case Value v of
               GoString s \<Rightarrow>
                 (result(k \<mapsto> \<lparr>attr_value = s, attr_deprecated = Deprecated v,
                                attr_warning = Warning v, attr_sensitive = sens v\<rparr>), diags)
             | other \<Rightarrow> (result, diags @ [IgnoredOutput k (go_type_name other)]));
          diags = (if Deprecated v \<noteq> [] then diags @ [OutputDeprecated k (Deprecated v)]
                   else diags);
          diags = (if Deprecated v \<noteq> [] then diags @ [OutputHasWarning k (Warning v)]
                   else diags)
      in (result, diags))"

fun Read_loop ::
  "(Output \<Rightarrow> bool) \<Rightarrow> Outputs \<Rightarrow> (string \<rightharpoonup> ObjectValue) \<times> diagnostic list
     \<Rightarrow> (string \<rightharpoonup> ObjectValue) \<times> diagnostic list" where
  "Read_loop sens [] acc = acc"
| "Read_loop sens ((k, v) # kvs) acc = Read_loop sens kvs (Read_entry sens k v acc)"

text \<open>
  \<open>OutputsDataSource.Read\<close> (lines 93 to 163) from the point where the configured stack
  name has been read, on a data source whose client is configured. It returns the
  diagnostics it adds and, when it gets that far, the model it saves to the state. Reading
  the configuration and writing the state belong to the plugin framework; their own
  diagnostics are not part of the model.
\<close>

definition Read ::
  "(string \<Rightarrow> string option) \<Rightarrow> (string \<Rightarrow> real option) \<Rightarrow> (Output \<Rightarrow> bool) \<Rightarrow> Client
     \<Rightarrow> string \<Rightarrow> Net \<Rightarrow> (diagnostic list \<times> OutputsDataSourceModel option) \<times> Net" where
  "Read url_error parse_float sens c stack net =
     (case GetOutputs url_error parse_float c stack net of
        (Inl err, net') \<Rightarrow> (([ReadFailed err], None), net')
      | (Inr None, net') \<Rightarrow> (([UnknownStack stack], None), net')
      | (Inr (Some outputs), net') \<Rightarrow>
          (let (result, diags) = Read_loop sens outputs (Map.empty, [])
           in ((diags, Some \<lparr>Model_Id = stack, Model_Stack = stack, Model_Outputs = result\<rparr>),
               net')))"

section \<open>The resolution steps as the specification words them\<close>

text \<open>
  Steps 1 and 2 of the specified resolution, written from the specification and not from
  the code: every field is the explicit value when that is not empty, otherwise the
  environment value when that is not empty, otherwise the built-in default (\<open>https\<close>
  for the scheme, the pooled client for the HTTP client, empty for the rest). The
  theorems below compare \<open>NewClient\<close> with it.
\<close>

definition spec_filled :: "(string \<times> string) list \<Rightarrow> http_Client \<Rightarrow> Config \<Rightarrow> Config" where
  "spec_filled environ pooled cfg =
     \<lparr>Address = (if Address cfg \<noteq> [] then Address cfg else os_Getenv environ ''watson_ADDRESS''),
      Scheme = (if Scheme cfg \<noteq> [] then Scheme cfg
                else if os_Getenv environ ''watson_SCHEME'' \<noteq> []
                     then os_Getenv environ ''watson_SCHEME'' else ''https''),
      Stack = (if Stack cfg \<noteq> [] then Stack cfg else os_Getenv environ ''watson_STACK''),
      HttpClient = (case HttpClient cfg of Some h \<Rightarrow> Some h | None \<Rightarrow> Some pooled)\<rparr>"

section \<open>Concrete inputs\<close>

text \<open>
  The inputs at which the theorems are instantiated: an HTTP client that answers every
  request with one fixed response, a response with a status code and no body, a URL
  grammar that accepts every path, a client
  configured as the acceptance test configures it, a network on which nothing has
  happened yet, a \<open>Stack\<close> decoder that rejects every body, a reading of
  \<open>v.Sensitive\<close> that is always false, and a \<open>ParseFloat\<close> for the numbers used below:
  it reads an unsigned integer of at most 15 digits, which a \<open>float64\<close> holds exactly,
  and answers every other literal as it answers one that is out of range.
\<close>

definition static_client :: "Response \<Rightarrow> http_Client" where
  "static_client resp req = Inr resp"

definition plain_response :: "int \<Rightarrow> Response" where
  "plain_response code = \<lparr>StatusCode = code, Body = None\<rparr>"

definition any_url :: "string \<Rightarrow> string option" where
  "any_url u = None"

definition test_client :: "Response \<Rightarrow> Client" where
  "test_client resp =
     \<lparr>config = \<lparr>Address = ''127.0.0.1:8080'', Scheme = ''http'', Stack = ''frontend/dev'',
                 HttpClient = Some (static_client resp)\<rparr>,
      headers = [(''X-Watson-Stack'', [''frontend/dev''])]\<rparr>"

definition idle_net :: Net where
  "idle_net = \<lparr>issued = [], open_bodies = 0\<rparr>"

definition reject_Stack :: "json option \<Rightarrow> error + Stack" where
  "reject_Stack body = Inl SyntaxError"

definition never_sensitive :: "Output \<Rightarrow> bool" where
  "never_sensitive v = False"

definition bare_config :: "string \<Rightarrow> string \<Rightarrow> string \<Rightarrow> Config" where
  "bare_config address scheme stack =
     \<lparr>Address = address, Scheme = scheme, Stack = stack, HttpClient = None\<rparr>"

definition digit_value :: "char \<Rightarrow> nat option" where
  "digit_value c = map_of (zip ''0123456789'' [0, 1, 2, 3, 4, 5, 6, 7, 8, 9]) c"

fun decimal :: "string \<Rightarrow> nat \<Rightarrow> nat option" where
  "decimal [] acc = Some acc"
| "decimal (c # cs) acc =
     (case digit_value c of None \<Rightarrow> None | Some d \<Rightarrow> decimal cs (10 * acc + d))"

definition small_ParseFloat :: "string \<Rightarrow> real option" where
  "small_ParseFloat lit =
     (if lit = [] \<or> 15 < length lit then None else map_option real (decimal lit 0))"

text \<open>
  The payload of the specification (\<open>hostname\<close> a string, \<open>count\<close> the number 3) with
  one more output of each remaining JSON type.
\<close>

definition sample_outputs_body :: json where
  "sample_outputs_body =
     JObject [(''hostname'', JObject [(''value'', JString ''https://hello.example''),
                                      (''sensitive'', JBool False)]),
              (''count'', JObject [(''value'', JNumber ''3'')]),
              (''enabled'', JObject [(''value'', JBool True)]),
              (''owner'', JObject [(''value'', JNull)]),
              (''zones'', JObject [(''value'', JArray [JString ''a'', JString ''b''])]),
              (''tags'', JObject [(''value'', JObject [(''env'', JString ''dev'')])])]"

definition sample_outputs :: Outputs where
  "sample_outputs =
     [(''hostname'', \<lparr>Value = GoString ''https://hello.example'', Deprecated = [], Warning = []\<rparr>),
      (''count'', \<lparr>Value = GoFloat64 3, Deprecated = [], Warning = []\<rparr>),
      (''enabled'', \<lparr>Value = GoBool True, Deprecated = [], Warning = []\<rparr>),
      (''owner'', \<lparr>Value = GoNil, Deprecated = [], Warning = []\<rparr>),
      (''zones'', \<lparr>Value = GoSlice [GoString ''a'', GoString ''b''], Deprecated = [],
                   Warning = []\<rparr>),
      (''tags'', \<lparr>Value = GoMap [(''env'', GoString ''dev'')], Deprecated = [], Warning = []\<rparr>)]"

section \<open>Facts about the library functions\<close>

lemma strings_Index_None:
  "\<nexists>a b. s = a @ sep @ b \<Longrightarrow> strings_Index s sep = None"
proof (induction s)
  case Nil
  then show ?case by auto
next
  case (Cons c cs)
  have no_prefix: "take (length sep) (c # cs) \<noteq> sep"
  proof
    assume "take (length sep) (c # cs) = sep"
    then have "c # cs = [] @ sep @ drop (length sep) (c # cs)"
      by (metis append_Nil append_take_drop_id)
    with Cons.prems show False by blast
  qed
  have "\<nexists>a b. cs = a @ sep @ b"
  proof
    assume "\<exists>a b. cs = a @ sep @ b"
    then obtain a b where "cs = a @ sep @ b" by blast
    then have "c # cs = (c # a) @ sep @ b" by simp
    with Cons.prems show False by blast
  qed
  with Cons.IH no_prefix show ?case by simp
qed

lemma strings_Index_Some:
  "strings_Index s sep = Some i \<Longrightarrow> s = take i s @ sep @ drop (i + length sep) s"
proof (induction s arbitrary: i)
  case Nil
  then show ?case by (simp split: if_splits)
next
  case (Cons c cs)
  show ?case
  proof (cases "take (length sep) (c # cs) = sep")
    case True
    with Cons.prems have "i = 0" by simp
    with True show ?thesis
      by (metis add_0 append_Nil append_take_drop_id take0)
  next
    case False
    with Cons.prems obtain j where j: "strings_Index cs sep = Some j" "i = Suc j"
      by auto
    from Cons.IH [OF j(1)] j(2) show ?thesis by simp
  qed
qed

lemma strings_Index_scheme_sep:
  "\<nexists>a b. p = a @ ''://'' @ b \<Longrightarrow> strings_Index (p @ ''://'' @ r) ''://'' = Some (length p)"
proof (induction p)
  case Nil
  show ?case by simp
next
  case (Cons c p)
  have rest: "\<nexists>a b. p = a @ ''://'' @ b"
  proof
    assume "\<exists>a b. p = a @ ''://'' @ b"
    then obtain a b where "p = a @ ''://'' @ b" by blast
    then have "c # p = (c # a) @ ''://'' @ b" by simp
    with Cons.prems show False by blast
  qed
  have here: "take (length ''://'') ((c # p) @ ''://'' @ r) \<noteq> ''://''"
  proof (cases p)
    case Nil
    then show ?thesis by simp
  next
    case (Cons x q)
    note p = this
    show ?thesis
    proof (cases q)
      case Nil
      with p show ?thesis by simp
    next
      case (Cons y q')
      show ?thesis
      proof
        assume "take (length ''://'') ((c # p) @ ''://'' @ r) = ''://''"
        with p Cons have "c # p = [] @ ''://'' @ q'" by simp
        with Cons.prems show False by blast
      qed
    qed
  qed
  from Cons.IH [OF rest] here show ?case by simp
qed

lemma strings_SplitN_no_sep:
  "\<nexists>a b. s = a @ ''://'' @ b \<Longrightarrow> strings_SplitN s ''://'' 2 = [s]"
  by (cases s) (simp_all add: strings_SplitN_def strings_Index_None del: strings_Index.simps)

lemma strings_SplitN_scheme_sep:
  assumes "\<nexists>a b. p = a @ ''://'' @ b"
  shows "strings_SplitN (p @ ''://'' @ r) ''://'' 2 = [p, r]"
proof -
  have "min 2 (length (p @ ''://'' @ r) + 1) - 1 = Suc 0" by simp
  then show ?thesis
    using strings_Index_scheme_sep [OF assms, of r]
    by (simp add: strings_SplitN_def del: strings_Index.simps)
qed

lemma strings_Index_byte_None: "strings_Index s [c] = None \<longleftrightarrow> c \<notin> set s"
  by (induction s) auto

lemma strings_Index_byte_Some:
  "strings_Index s [c] = Some i \<Longrightarrow> count_list s c = Suc (count_list (drop (Suc i) s) c)"
proof (induction s arbitrary: i)
  case Nil
  then show ?case by simp
next
  case (Cons x xs)
  then show ?case by (auto split: if_splits)
qed

lemma strings_Count_byte: "strings_Count s [c] = count_list s c"
proof (induction s "[c]" rule: strings_Count.induct)
  case (1 s)
  show ?case
  proof (cases "strings_Index s [c]")
    case None
    then have "c \<notin> set s" by (simp add: strings_Index_byte_None)
    then have "count_list s c = 0" by (simp add: count_list_0_iff)
    with None show ?thesis by (simp add: strings_Count.simps [of s])
  next
    case (Some i)
    from "1.hyps" [OF _ Some] have "strings_Count (drop (i + length [c]) s) [c] = count_list (drop (i + length [c]) s) c"
      by simp
    with Some strings_Index_byte_Some [OF Some] show ?thesis
      by (simp add: strings_Count.simps [of s])
  qed
qed

lemma count_list_one_iff:
  "count_list s c = 1 \<longleftrightarrow> (\<exists>ns n. s = ns @ [c] @ n \<and> c \<notin> set ns \<and> c \<notin> set n)"
proof
  assume one: "count_list s c = 1"
  then have "c \<in> set s"
    by (metis count_list_0_iff zero_neq_one)
  then obtain ns n where split: "s = ns @ c # n" "c \<notin> set ns"
    by (meson split_list_first)
  with one have "count_list n c = 0"
    by (simp add: count_list_0_iff)
  then have "c \<notin> set n" by (simp add: count_list_0_iff)
  with split show "\<exists>ns n. s = ns @ [c] @ n \<and> c \<notin> set ns \<and> c \<notin> set n" by auto
next
  assume "\<exists>ns n. s = ns @ [c] @ n \<and> c \<notin> set ns \<and> c \<notin> set n"
  then show "count_list s c = 1"
    by (auto simp: count_list_0_iff)
qed


lemma NewClient_unfold:
  "NewClient environ pooled cfg =
     (let L = spec_filled environ pooled cfg;
          parts = strings_SplitN (Address L) ''://'' 2
      in if length parts = 2 then
           (if parts ! 0 = ''http'' then
              (Inr \<lparr>config = L\<lparr>Scheme := ''http'', Address := parts ! 1\<rparr>,
                    headers = make_headers (L\<lparr>Scheme := ''http'', Address := parts ! 1\<rparr>)\<rparr>,
               L\<lparr>Scheme := ''http'', Address := parts ! 1\<rparr>)
            else if parts ! 0 = ''https'' then
              (Inr \<lparr>config = L\<lparr>Scheme := ''https'', Address := parts ! 1\<rparr>,
                    headers = make_headers (L\<lparr>Scheme := ''https'', Address := parts ! 1\<rparr>)\<rparr>,
               L\<lparr>Scheme := ''https'', Address := parts ! 1\<rparr>)
            else (Inl (UnknownScheme (parts ! 0)), L))
         else (Inr \<lparr>config = L, headers = make_headers L\<rparr>, L))"
proof -
  have fill: "(let defConfig = DefaultConfig environ pooled;
          c1 = (if Address cfg = [] then cfg\<lparr>Address := Address defConfig\<rparr> else cfg);
          c2 = (if Scheme c1 = [] then c1\<lparr>Scheme := Scheme defConfig\<rparr> else c1);
          c3 = (if Stack c2 = [] then c2\<lparr>Stack := Stack defConfig\<rparr> else c2)
      in (if HttpClient c3 = None then c3\<lparr>HttpClient := HttpClient defConfig\<rparr> else c3))
    = spec_filled environ pooled cfg"
    by (cases cfg) (auto simp: DefaultConfig_def spec_filled_def Let_def)
  show ?thesis
    unfolding NewClient_def fill [symmetric] by (simp only: Let_def)
qed

lemma NewClient_no_prefix:
  assumes "\<nexists>a b. Address (spec_filled environ pooled cfg) = a @ ''://'' @ b"
  shows "NewClient environ pooled cfg =
     (Inr \<lparr>config = spec_filled environ pooled cfg,
           headers = make_headers (spec_filled environ pooled cfg)\<rparr>,
      spec_filled environ pooled cfg)"
  using strings_SplitN_no_sep [OF assms] by (simp add: NewClient_unfold Let_def)

lemma NewClient_prefix:
  assumes "Address (spec_filled environ pooled cfg) = p @ ''://'' @ r"
    and "\<nexists>a b. p = a @ ''://'' @ b"
  shows "NewClient environ pooled cfg =
     (let L = spec_filled environ pooled cfg in
      if p = ''http'' \<or> p = ''https'' then
        (Inr \<lparr>config = L\<lparr>Scheme := p, Address := r\<rparr>,
              headers = make_headers (L\<lparr>Scheme := p, Address := r\<rparr>)\<rparr>,
         L\<lparr>Scheme := p, Address := r\<rparr>)
      else (Inl (UnknownScheme p), L))"
proof -
  have "strings_SplitN (Address (spec_filled environ pooled cfg)) ''://'' 2 = [p, r]"
    using strings_SplitN_scheme_sep [OF assms(2), of r] assms(1) by simp
  then show ?thesis
    by (auto simp: NewClient_unfold Let_def)
qed

lemma no_sep_http: "\<nexists>a b. ''http'' = a @ ''://'' @ b"
proof
  assume "\<exists>a b. ''http'' = a @ ''://'' @ b"
  then obtain a b where eq: "''http'' = a @ ''://'' @ b" by blast
  then have "CHR '':'' \<in> set ''http''"
    by (metis append_Cons in_set_conv_decomp)
  then show False by simp
qed

lemma no_sep_https: "\<nexists>a b. ''https'' = a @ ''://'' @ b"
proof
  assume "\<exists>a b. ''https'' = a @ ''://'' @ b"
  then obtain a b where eq: "''https'' = a @ ''://'' @ b" by blast
  then have "CHR '':'' \<in> set ''https''"
    by (metis append_Cons in_set_conv_decomp)
  then show False by simp
qed

lemma first_occurrence:
  assumes "\<exists>a b. s = a @ sep @ b" and "sep \<noteq> []"
  shows "\<exists>p r. s = p @ sep @ r \<and> (\<nexists>a b. p = a @ sep @ b)"
proof -
  from assms(1) obtain a0 where "\<exists>b. s = a0 @ sep @ b" by blast
  then obtain p where p: "\<exists>b. s = p @ sep @ b"
    and least: "\<forall>a. (\<exists>b. s = a @ sep @ b) \<longrightarrow> length p \<le> length a"
    using ex_has_least_nat [of "\<lambda>a. \<exists>b. s = a @ sep @ b" a0 length] by blast
  from p obtain r where r: "s = p @ sep @ r" by blast
  have "\<nexists>a b. p = a @ sep @ b"
  proof
    assume "\<exists>a b. p = a @ sep @ b"
    then obtain a b where ab: "p = a @ sep @ b" by blast
    with r have "s = a @ sep @ (b @ sep @ r)" by simp
    with least have "length p \<le> length a" by blast
    with ab assms(2) show False by simp
  qed
  with r show ?thesis by blast
qed

lemma no_sep_without_colon: "CHR '':'' \<notin> set p \<Longrightarrow> \<nexists>a b. p = a @ ''://'' @ b"
proof
  assume nc: "CHR '':'' \<notin> set p" and "\<exists>a b. p = a @ ''://'' @ b"
  then obtain a b where "p = a @ ''://'' @ b" by blast
  then have "CHR '':'' \<in> set p" by simp
  with nc show False by simp
qed

lemma no_sep_without_slash: "CHR ''/'' \<notin> set p \<Longrightarrow> \<nexists>a b. p = a @ ''://'' @ b"
proof
  assume nc: "CHR ''/'' \<notin> set p" and "\<exists>a b. p = a @ ''://'' @ b"
  then obtain a b where "p = a @ ''://'' @ b" by blast
  then have "CHR ''/'' \<in> set p" by simp
  with nc show False by simp
qed

section \<open>Stack names\<close>

text \<open>
  C1 (as amended). Validation succeeds exactly on the strings with one \<open>/\<close>: those of
  the form \<open>ns @ "/" @ n\<close> where neither half contains a \<open>/\<close>. Either half may be empty.
  Every other string fails with \<open>InvalidStackName\<close> carrying the string itself.
\<close>

theorem validateStackName_one_separator:
  "validateStackName s =
     (if \<exists>ns n. s = ns @ ''/'' @ n \<and> CHR ''/'' \<notin> set ns \<and> CHR ''/'' \<notin> set n
      then None else Some (InvalidStackName s))"
  unfolding validateStackName_def strings_Count_byte count_list_one_iff by simp

text \<open>
  C1 as stated also asks that a string with an empty half be rejected. The string
  \<open>a/\<close> has an empty name half, so it is not of the stated shape, and it is accepted.
\<close>

theorem validateStackName_empty_half_counterexample:
  "\<not> (\<forall>s. \<not> (\<exists>ns n. s = ns @ ''/'' @ n \<and> ns \<noteq> [] \<and> n \<noteq> []
                    \<and> CHR ''/'' \<notin> set ns \<and> CHR ''/'' \<notin> set n)
          \<longrightarrow> validateStackName s = Some (InvalidStackName s))"
proof
  assume claim: "\<forall>s. \<not> (\<exists>ns n. s = ns @ ''/'' @ n \<and> ns \<noteq> [] \<and> n \<noteq> []
                    \<and> CHR ''/'' \<notin> set ns \<and> CHR ''/'' \<notin> set n)
          \<longrightarrow> validateStackName s = Some (InvalidStackName s)"
  have "\<not> (\<exists>ns n. ''a/'' = ns @ ''/'' @ n \<and> ns \<noteq> [] \<and> n \<noteq> []
                    \<and> CHR ''/'' \<notin> set ns \<and> CHR ''/'' \<notin> set n)"
  proof
    assume "\<exists>ns n. ''a/'' = ns @ ''/'' @ n \<and> ns \<noteq> [] \<and> n \<noteq> []
                    \<and> CHR ''/'' \<notin> set ns \<and> CHR ''/'' \<notin> set n"
    then obtain ns n where eq: "''a/'' = ns @ ''/'' @ n" and ne: "ns \<noteq> []" "n \<noteq> []"
      by blast
    from eq have "length ''a/'' = length (ns @ ''/'' @ n)" by (rule arg_cong)
    with ne show False by (cases ns; cases n) simp_all
  qed
  with claim have "validateStackName ''a/'' = Some (InvalidStackName ''a/'')" by blast
  then show False
    by (simp add: validateStackName_def strings_Count.simps)
qed

section \<open>Resolution of the configuration\<close>

text \<open>
  C3 as stated: every constructed client has the scheme \<open>http\<close> or \<open>https\<close>. An
  explicit scheme \<open>ftp\<close> with an address that embeds no prefix is kept as it is.
\<close>

theorem NewClient_scheme_counterexample:
  "\<not> (\<forall>environ pooled cfg c. fst (NewClient environ pooled cfg) = Inr c
         \<longrightarrow> Scheme (config c) = ''http'' \<or> Scheme (config c) = ''https'')"
proof
  assume claim: "\<forall>environ pooled cfg c. fst (NewClient environ pooled cfg) = Inr c
         \<longrightarrow> Scheme (config c) = ''http'' \<or> Scheme (config c) = ''https''"
  define c where "c = \<lparr>config = \<lparr>Address = ''h'', Scheme = ''ftp'', Stack = [],
      HttpClient = Some (static_client (plain_response 200))\<rparr>, headers = []\<rparr>"
  have "fst (NewClient [] (static_client (plain_response 200)) (bare_config ''h'' ''ftp'' [])) = Inr c"
    by (simp add: NewClient_def DefaultConfig_def os_Getenv_def bare_config_def
        strings_SplitN_def make_headers_def Let_def c_def)
  with claim have "Scheme (config c) = ''http'' \<or> Scheme (config c) = ''https''" by blast
  then show False by (simp add: c_def)
qed

text \<open>
  C3 (as amended). When the resolved address embeds no \<open>://\<close>, construction succeeds
  and the scheme of the client is the explicit value, else the environment value, else
  \<open>https\<close>, whatever that value is: an explicit \<open>ftp\<close> is kept. When the address embeds
  a prefix, the scheme of every constructed client is \<open>http\<close> or \<open>https\<close>. An address
  whose prefix before the first \<open>://\<close> is neither \<open>http\<close> nor \<open>https\<close> makes construction
  fail with \<open>UnknownScheme\<close>, and no client is produced.
\<close>

theorem NewClient_scheme_invariant:
  "((\<nexists>a b. Address (spec_filled environ pooled cfg) = a @ ''://'' @ b) \<longrightarrow>
      (\<exists>c. fst (NewClient environ pooled cfg) = Inr c \<and>
           Scheme (config c) =
             (if Scheme cfg \<noteq> [] then Scheme cfg
              else if os_Getenv environ ''watson_SCHEME'' \<noteq> []
                   then os_Getenv environ ''watson_SCHEME'' else ''https''))) \<and>
   ((\<exists>a b. Address (spec_filled environ pooled cfg) = a @ ''://'' @ b) \<longrightarrow>
      (\<forall>c. fst (NewClient environ pooled cfg) = Inr c \<longrightarrow>
           Scheme (config c) = ''http'' \<or> Scheme (config c) = ''https'')) \<and>
   (Address (spec_filled environ pooled cfg) = p @ ''://'' @ r \<and>
    (\<nexists>a b. p = a @ ''://'' @ b) \<and> p \<noteq> ''http'' \<and> p \<noteq> ''https'' \<longrightarrow>
      fst (NewClient environ pooled cfg) = Inl (UnknownScheme p))"
proof (intro conjI impI allI)
  assume "\<nexists>a b. Address (spec_filled environ pooled cfg) = a @ ''://'' @ b"
  from NewClient_no_prefix [OF this]
  show "\<exists>c. fst (NewClient environ pooled cfg) = Inr c \<and>
           Scheme (config c) =
             (if Scheme cfg \<noteq> [] then Scheme cfg
              else if os_Getenv environ ''watson_SCHEME'' \<noteq> []
                   then os_Getenv environ ''watson_SCHEME'' else ''https'')"
    by (simp add: spec_filled_def)
next
  fix c
  assume "\<exists>a b. Address (spec_filled environ pooled cfg) = a @ ''://'' @ b"
    and ok: "fst (NewClient environ pooled cfg) = Inr c"
  then obtain q t where qt: "Address (spec_filled environ pooled cfg) = q @ ''://'' @ t"
    "\<nexists>a b. q = a @ ''://'' @ b"
    using first_occurrence [of "Address (spec_filled environ pooled cfg)" "''://''"] by auto
  from ok NewClient_prefix [OF qt]
  show "Scheme (config c) = ''http'' \<or> Scheme (config c) = ''https''"
    by (auto simp: Let_def split: if_splits)
next
  assume "Address (spec_filled environ pooled cfg) = p @ ''://'' @ r \<and>
    (\<nexists>a b. p = a @ ''://'' @ b) \<and> p \<noteq> ''http'' \<and> p \<noteq> ''https''"
  then show "fst (NewClient environ pooled cfg) = Inl (UnknownScheme p)"
    using NewClient_prefix [of environ pooled cfg p r] by (simp add: Let_def)
qed

text \<open>
  Without a prefix: the explicit scheme \<open>ftp\<close> kept, the environment scheme \<open>gopher\<close>
  kept, and \<open>https\<close> when neither is given. With the prefix \<open>http\<close>: the scheme is
  \<open>http\<close>. With the prefix \<open>ftp\<close>: no client.
\<close>

theorem NewClient_scheme_invariant_witness:
  "(\<exists>c. fst (NewClient [] (static_client (plain_response 200)) (bare_config ''h'' ''ftp'' []))
          = Inr c \<and> Scheme (config c) = ''ftp'') \<and>
   (\<exists>c. fst (NewClient [(''watson_SCHEME'', ''gopher'')] (static_client (plain_response 200))
             (bare_config ''h'' [] [])) = Inr c \<and> Scheme (config c) = ''gopher'') \<and>
   (\<exists>c. fst (NewClient [] (static_client (plain_response 200)) (bare_config ''h'' [] []))
          = Inr c \<and> Scheme (config c) = ''https'') \<and>
   (\<exists>c. fst (NewClient [] (static_client (plain_response 200)) (bare_config ''http://h'' ''ftp'' []))
          = Inr c \<and> Scheme (config c) = ''http'') \<and>
   fst (NewClient [] (static_client (plain_response 200)) (bare_config ''ftp://h'' [] []))
     = Inl (UnknownScheme ''ftp'')"
proof -
  let ?P = "static_client (plain_response 200)"
  let ?G = "[(''watson_SCHEME'', ''gopher'')]"
  have plain: "\<nexists>a b. ''h'' = a @ ''://'' @ b"
    by (rule no_sep_without_colon) simp
  have n1: "\<nexists>a b. Address (spec_filled [] ?P (bare_config ''h'' ''ftp'' [])) = a @ ''://'' @ b"
    using plain by (simp add: spec_filled_def bare_config_def)
  have n2: "\<nexists>a b. Address (spec_filled ?G ?P (bare_config ''h'' [] [])) = a @ ''://'' @ b"
    using plain by (simp add: spec_filled_def bare_config_def)
  have n3: "\<nexists>a b. Address (spec_filled [] ?P (bare_config ''h'' [] [])) = a @ ''://'' @ b"
    using plain by (simp add: spec_filled_def bare_config_def)
  have one: "\<exists>c. fst (NewClient [] ?P (bare_config ''h'' ''ftp'' [])) = Inr c \<and>
      Scheme (config c) = ''ftp''"
    using NewClient_scheme_invariant [of "[]" ?P "bare_config ''h'' ''ftp'' []"] n1
    by (simp add: bare_config_def)
  have two: "\<exists>c. fst (NewClient ?G ?P (bare_config ''h'' [] [])) = Inr c \<and>
      Scheme (config c) = ''gopher''"
    using NewClient_scheme_invariant [of ?G ?P "bare_config ''h'' [] []"] n2
    by (simp add: bare_config_def os_Getenv_def)
  have three: "\<exists>c. fst (NewClient [] ?P (bare_config ''h'' [] [])) = Inr c \<and>
      Scheme (config c) = ''https''"
    using NewClient_scheme_invariant [of "[]" ?P "bare_config ''h'' [] []"] n3
    by (simp add: bare_config_def os_Getenv_def)
  have addr: "Address (spec_filled [] ?P (bare_config ''ftp://h'' [] [])) = ''ftp'' @ ''://'' @ ''h''"
    by (simp add: spec_filled_def bare_config_def)
  have free: "\<nexists>a b. ''ftp'' = a @ ''://'' @ b"
    by (rule no_sep_without_colon) simp
  have bad: "fst (NewClient [] ?P (bare_config ''ftp://h'' [] [])) = Inl (UnknownScheme ''ftp'')"
    using NewClient_scheme_invariant [of "[]" ?P "bare_config ''ftp://h'' [] []" "''ftp''" "''h''"]
      addr free by simp
  obtain c where c: "fst (NewClient [] ?P (bare_config ''http://h'' ''ftp'' [])) = Inr c"
    by (simp add: NewClient_def DefaultConfig_def os_Getenv_def bare_config_def
        strings_SplitN_def make_headers_def Let_def)
  have "Address (spec_filled [] ?P (bare_config ''http://h'' ''ftp'' [])) = ''http'' @ ''://'' @ ''h''"
    by (simp add: spec_filled_def bare_config_def)
  then have "\<exists>a b. Address (spec_filled [] ?P (bare_config ''http://h'' ''ftp'' [])) = a @ ''://'' @ b"
    by blast
  then have "Scheme (config c) = ''http'' \<or> Scheme (config c) = ''https''"
    using NewClient_scheme_invariant [of "[]" ?P "bare_config ''http://h'' ''ftp'' []"] c by blast
  moreover have "Scheme (config c) \<noteq> ''https''"
    using c by (auto simp: NewClient_def DefaultConfig_def os_Getenv_def bare_config_def
        strings_SplitN_def make_headers_def Let_def)
  ultimately have four: "\<exists>c. fst (NewClient [] ?P (bare_config ''http://h'' ''ftp'' [])) = Inr c \<and>
      Scheme (config c) = ''http''"
    using c by blast
  from one two three four bad show ?thesis by blast
qed

text \<open>
  C4. When the resolved address (the explicit one, or the one of the environment when
  none is given) is \<open>http://rest\<close> or \<open>https://rest\<close>, construction succeeds with the
  scheme of the prefix, whatever scheme was supplied, and with the host \<open>rest\<close>. When it
  is \<open>p://rest\<close>, \<open>p\<close> being the text before the first \<open>://\<close> and neither \<open>http\<close> nor
  \<open>https\<close>, construction fails with \<open>UnknownScheme p\<close>.
\<close>

theorem NewClient_embedded_scheme:
  "(Address (spec_filled environ pooled cfg) = ''http://'' @ rest \<longrightarrow>
      (\<exists>c. fst (NewClient environ pooled cfg) = Inr c \<and>
           Scheme (config c) = ''http'' \<and> Address (config c) = rest)) \<and>
   (Address (spec_filled environ pooled cfg) = ''https://'' @ rest \<longrightarrow>
      (\<exists>c. fst (NewClient environ pooled cfg) = Inr c \<and>
           Scheme (config c) = ''https'' \<and> Address (config c) = rest)) \<and>
   (Address (spec_filled environ pooled cfg) = p @ ''://'' @ rest \<and>
    (\<nexists>a b. p = a @ ''://'' @ b) \<and> p \<noteq> ''http'' \<and> p \<noteq> ''https'' \<longrightarrow>
      fst (NewClient environ pooled cfg) = Inl (UnknownScheme p))"
proof (intro conjI impI)
  assume "Address (spec_filled environ pooled cfg) = ''http://'' @ rest"
  then have "Address (spec_filled environ pooled cfg) = ''http'' @ ''://'' @ rest" by simp
  from NewClient_prefix [OF this no_sep_http]
  show "\<exists>c. fst (NewClient environ pooled cfg) = Inr c \<and>
           Scheme (config c) = ''http'' \<and> Address (config c) = rest"
    by (simp add: Let_def)
next
  assume "Address (spec_filled environ pooled cfg) = ''https://'' @ rest"
  then have "Address (spec_filled environ pooled cfg) = ''https'' @ ''://'' @ rest" by simp
  from NewClient_prefix [OF this no_sep_https]
  show "\<exists>c. fst (NewClient environ pooled cfg) = Inr c \<and>
           Scheme (config c) = ''https'' \<and> Address (config c) = rest"
    by (simp add: Let_def)
next
  assume "Address (spec_filled environ pooled cfg) = p @ ''://'' @ rest \<and>
    (\<nexists>a b. p = a @ ''://'' @ b) \<and> p \<noteq> ''http'' \<and> p \<noteq> ''https''"
  then show "fst (NewClient environ pooled cfg) = Inl (UnknownScheme p)"
    using NewClient_prefix [of environ pooled cfg p rest] by (simp add: Let_def)
qed

text \<open>
  The three cases at concrete inputs: an explicit scheme \<open>https\<close> overridden by the prefix
  \<open>http\<close>, an address taken from the environment, and the prefix \<open>gopher\<close>.
\<close>

theorem NewClient_embedded_scheme_witness:
  "(\<exists>c. fst (NewClient [(''watson_SCHEME'', ''https'')] (static_client (plain_response 200))
             (bare_config ''http://example.org:8080'' ''https'' [])) = Inr c \<and>
        Scheme (config c) = ''http'' \<and> Address (config c) = ''example.org:8080'') \<and>
   (\<exists>c. fst (NewClient [(''watson_ADDRESS'', ''https://example.org'')]
             (static_client (plain_response 200)) (bare_config [] ''http'' [])) = Inr c \<and>
        Scheme (config c) = ''https'' \<and> Address (config c) = ''example.org'') \<and>
   fst (NewClient [] (static_client (plain_response 200)) (bare_config ''gopher://example.org'' [] []))
     = Inl (UnknownScheme ''gopher'')"
proof -
  let ?P = "static_client (plain_response 200)"
  have a1: "Address (spec_filled [(''watson_SCHEME'', ''https'')] ?P
              (bare_config ''http://example.org:8080'' ''https'' [])) = ''http://'' @ ''example.org:8080''"
    by (simp add: spec_filled_def bare_config_def)
  have a2: "Address (spec_filled [(''watson_ADDRESS'', ''https://example.org'')] ?P
              (bare_config [] ''http'' [])) = ''https://'' @ ''example.org''"
    by (simp add: spec_filled_def bare_config_def os_Getenv_def)
  have a3: "Address (spec_filled [] ?P (bare_config ''gopher://example.org'' [] []))
              = ''gopher'' @ ''://'' @ ''example.org''"
    by (simp add: spec_filled_def bare_config_def)
  have free: "\<nexists>a b. ''gopher'' = a @ ''://'' @ b"
    by (rule no_sep_without_colon) simp
  show ?thesis
    using NewClient_embedded_scheme [of "[(''watson_SCHEME'', ''https'')]" ?P
        "bare_config ''http://example.org:8080'' ''https'' []" "''example.org:8080''"]
      NewClient_embedded_scheme [of "[(''watson_ADDRESS'', ''https://example.org'')]" ?P
        "bare_config [] ''http'' []" "''example.org''"]
      NewClient_embedded_scheme [of "[]" ?P "bare_config ''gopher://example.org'' [] []"
        "''example.org''" "''gopher''"]
      a1 a2 a3 free
    by simp
qed

text \<open>
  C5 as stated: an explicit scheme always is the resolved scheme. With the explicit
  scheme \<open>https\<close>, the environment scheme \<open>https\<close> and the explicit address \<open>http://h\<close>,
  the resolved scheme is \<open>http\<close>.
\<close>

theorem NewClient_explicit_counterexample:
  "\<not> (\<forall>environ pooled cfg c.
         Scheme cfg \<noteq> [] \<and> os_Getenv environ ''watson_SCHEME'' \<noteq> [] \<and>
         fst (NewClient environ pooled cfg) = Inr c
         \<longrightarrow> Scheme (config c) = Scheme cfg)"
proof
  assume claim: "\<forall>environ pooled cfg c.
         Scheme cfg \<noteq> [] \<and> os_Getenv environ ''watson_SCHEME'' \<noteq> [] \<and>
         fst (NewClient environ pooled cfg) = Inr c
         \<longrightarrow> Scheme (config c) = Scheme cfg"
  let ?env = "[(''watson_SCHEME'', ''https'')]"
  let ?P = "static_client (plain_response 200)"
  let ?cfg = "bare_config ''http://h'' ''https'' []"
  obtain c where c: "fst (NewClient ?env ?P ?cfg) = Inr c"
    by (simp add: NewClient_def DefaultConfig_def os_Getenv_def bare_config_def
        strings_SplitN_def make_headers_def Let_def)
  have "Scheme ?cfg \<noteq> []" "os_Getenv ?env ''watson_SCHEME'' \<noteq> []"
    by (simp_all add: bare_config_def os_Getenv_def)
  with claim c have "Scheme (config c) = Scheme ?cfg" by blast
  moreover have "Scheme (config c) = ''http''"
    using c by (auto simp: NewClient_def DefaultConfig_def os_Getenv_def bare_config_def
        strings_SplitN_def make_headers_def Let_def)
  ultimately show False by (simp add: bare_config_def)
qed

text \<open>
  C5 (as amended). When the resolved address embeds no \<open>://\<close>, construction succeeds
  and host and scheme are the explicit value when it is not empty, otherwise the
  environment value, and \<open>https\<close> for a scheme that neither gives. When the address embeds
  the prefix \<open>http\<close> or \<open>https\<close>, construction succeeds, the scheme is that prefix,
  whatever scheme was given, and the host is the remainder. The stack of every constructed
  client is the explicit value when it is not empty and the environment value otherwise.
  In particular the address \<open>myhost:8080\<close> with no explicit scheme and the environment
  scheme \<open>http\<close> resolves to that host and that scheme.
\<close>

theorem NewClient_explicit_over_environment:
  "((\<nexists>a b. Address (spec_filled environ pooled cfg) = a @ ''://'' @ b) \<longrightarrow>
      (\<exists>c. fst (NewClient environ pooled cfg) = Inr c \<and>
           Address (config c) =
             (if Address cfg \<noteq> [] then Address cfg else os_Getenv environ ''watson_ADDRESS'') \<and>
           Scheme (config c) =
             (if Scheme cfg \<noteq> [] then Scheme cfg
              else if os_Getenv environ ''watson_SCHEME'' \<noteq> []
                   then os_Getenv environ ''watson_SCHEME'' else ''https''))) \<and>
   (Address (spec_filled environ pooled cfg) = p @ ''://'' @ rest \<and>
    (\<nexists>a b. p = a @ ''://'' @ b) \<and> (p = ''http'' \<or> p = ''https'') \<longrightarrow>
      (\<exists>c. fst (NewClient environ pooled cfg) = Inr c \<and>
           Scheme (config c) = p \<and> Address (config c) = rest)) \<and>
   (\<forall>c. fst (NewClient environ pooled cfg) = Inr c \<longrightarrow>
      Stack (config c) =
        (if Stack cfg \<noteq> [] then Stack cfg else os_Getenv environ ''watson_STACK'')) \<and>
   (Address cfg = ''myhost:8080'' \<and> Scheme cfg = [] \<and>
    os_Getenv environ ''watson_SCHEME'' = ''http'' \<longrightarrow>
      (\<exists>c. fst (NewClient environ pooled cfg) = Inr c \<and>
           Address (config c) = ''myhost:8080'' \<and> Scheme (config c) = ''http''))"
proof (intro conjI impI allI)
  assume "\<nexists>a b. Address (spec_filled environ pooled cfg) = a @ ''://'' @ b"
  from NewClient_no_prefix [OF this]
  show "\<exists>c. fst (NewClient environ pooled cfg) = Inr c \<and>
           Address (config c) =
             (if Address cfg \<noteq> [] then Address cfg else os_Getenv environ ''watson_ADDRESS'') \<and>
           Scheme (config c) =
             (if Scheme cfg \<noteq> [] then Scheme cfg
              else if os_Getenv environ ''watson_SCHEME'' \<noteq> []
                   then os_Getenv environ ''watson_SCHEME'' else ''https'')"
    by (simp add: spec_filled_def)
next
  assume "Address (spec_filled environ pooled cfg) = p @ ''://'' @ rest \<and>
    (\<nexists>a b. p = a @ ''://'' @ b) \<and> (p = ''http'' \<or> p = ''https'')"
  then have a: "Address (spec_filled environ pooled cfg) = p @ ''://'' @ rest"
    and f: "\<nexists>a b. p = a @ ''://'' @ b" and r: "p = ''http'' \<or> p = ''https''"
    by simp_all
  from NewClient_prefix [OF a f] r
  show "\<exists>c. fst (NewClient environ pooled cfg) = Inr c \<and>
           Scheme (config c) = p \<and> Address (config c) = rest"
    by (auto simp: Let_def)
next
  fix c
  assume ok: "fst (NewClient environ pooled cfg) = Inr c"
  have "Stack (config c) = Stack (spec_filled environ pooled cfg)"
  proof (cases "\<exists>a b. Address (spec_filled environ pooled cfg) = a @ ''://'' @ b")
    case False
    with ok NewClient_no_prefix [of environ pooled cfg] show ?thesis by auto
  next
    case True
    then obtain q t where qt: "Address (spec_filled environ pooled cfg) = q @ ''://'' @ t"
      "\<nexists>a b. q = a @ ''://'' @ b"
      using first_occurrence [of "Address (spec_filled environ pooled cfg)" "''://''"] by auto
    from ok NewClient_prefix [OF qt] show ?thesis
      by (auto simp: Let_def split: if_splits)
  qed
  then show "Stack (config c) =
        (if Stack cfg \<noteq> [] then Stack cfg else os_Getenv environ ''watson_STACK'')"
    by (simp add: spec_filled_def)
next
  assume ex: "Address cfg = ''myhost:8080'' \<and> Scheme cfg = [] \<and>
    os_Getenv environ ''watson_SCHEME'' = ''http''"
  then have filled: "Address (spec_filled environ pooled cfg) = ''myhost:8080''"
    "Scheme (spec_filled environ pooled cfg) = ''http''"
    by (simp_all add: spec_filled_def)
  have "\<nexists>a b. Address (spec_filled environ pooled cfg) = a @ ''://'' @ b"
    unfolding filled by (rule no_sep_without_slash) simp
  from NewClient_no_prefix [OF this] filled
  show "\<exists>c. fst (NewClient environ pooled cfg) = Inr c \<and>
           Address (config c) = ''myhost:8080'' \<and> Scheme (config c) = ''http''"
    by simp
qed

text \<open>
  All three fields set both explicitly and in the environment: the explicit values are
  the resolved ones. None set explicitly: the environment values are. An explicit scheme
  \<open>https\<close> with the address \<open>http://h\<close>: scheme \<open>http\<close>, host \<open>h\<close>. And the scenario
  of the specification.
\<close>

theorem NewClient_explicit_over_environment_witness:
  "(\<exists>c. fst (NewClient [(''watson_ADDRESS'', ''envhost''), (''watson_SCHEME'', ''https''),
                         (''watson_STACK'', ''env/stack'')]
             (static_client (plain_response 200))
             (bare_config ''explicit:1'' ''http'' ''team/app'')) = Inr c \<and>
        Address (config c) = ''explicit:1'' \<and> Scheme (config c) = ''http'' \<and>
        Stack (config c) = ''team/app'') \<and>
   (\<exists>c. fst (NewClient [(''watson_ADDRESS'', ''envhost''), (''watson_SCHEME'', ''gopher''),
                         (''watson_STACK'', ''env/stack'')]
             (static_client (plain_response 200)) (bare_config [] [] [])) = Inr c \<and>
        Address (config c) = ''envhost'' \<and> Scheme (config c) = ''gopher'' \<and>
        Stack (config c) = ''env/stack'') \<and>
   (\<exists>c. fst (NewClient [(''watson_SCHEME'', ''https'')] (static_client (plain_response 200))
             (bare_config ''http://h'' ''https'' [])) = Inr c \<and>
        Address (config c) = ''h'' \<and> Scheme (config c) = ''http'') \<and>
   (\<exists>c. fst (NewClient [(''watson_SCHEME'', ''http'')] (static_client (plain_response 200))
             (bare_config ''myhost:8080'' [] [])) = Inr c \<and>
        Address (config c) = ''myhost:8080'' \<and> Scheme (config c) = ''http'')"
proof -
  let ?E = "[(''watson_ADDRESS'', ''envhost''), (''watson_SCHEME'', ''https''),
             (''watson_STACK'', ''env/stack'')]"
  let ?G = "[(''watson_ADDRESS'', ''envhost''), (''watson_SCHEME'', ''gopher''),
             (''watson_STACK'', ''env/stack'')]"
  let ?P = "static_client (plain_response 200)"
  let ?C = "bare_config ''explicit:1'' ''http'' ''team/app''"
  let ?N = "bare_config [] [] []"
  let ?H = "bare_config ''http://h'' ''https'' []"
  have "\<nexists>a b. ''explicit:1'' = a @ ''://'' @ b" by (rule no_sep_without_slash) simp
  then have free: "\<nexists>a b. Address (spec_filled ?E ?P ?C) = a @ ''://'' @ b"
    by (simp add: spec_filled_def bare_config_def)
  have "\<nexists>a b. ''envhost'' = a @ ''://'' @ b" by (rule no_sep_without_slash) simp
  then have freeN: "\<nexists>a b. Address (spec_filled ?G ?P ?N) = a @ ''://'' @ b"
    by (simp add: spec_filled_def bare_config_def os_Getenv_def)
  from NewClient_explicit_over_environment [of ?E ?P ?C] free
  obtain c where c: "fst (NewClient ?E ?P ?C) = Inr c" "Address (config c) = ''explicit:1''"
    "Scheme (config c) = ''http''"
    by (auto simp: bare_config_def)
  from NewClient_explicit_over_environment [of ?E ?P ?C] c(1)
  have "Stack (config c) = ''team/app''"
    by (auto simp: bare_config_def)
  with c have one: "\<exists>c. fst (NewClient ?E ?P ?C) = Inr c \<and>
        Address (config c) = ''explicit:1'' \<and> Scheme (config c) = ''http'' \<and>
        Stack (config c) = ''team/app''"
    by blast
  from NewClient_explicit_over_environment [of ?G ?P ?N] freeN
  obtain d where d: "fst (NewClient ?G ?P ?N) = Inr d" "Address (config d) = ''envhost''"
    "Scheme (config d) = ''gopher''"
    by (auto simp: bare_config_def os_Getenv_def)
  from NewClient_explicit_over_environment [of ?G ?P ?N] d(1)
  have "Stack (config d) = ''env/stack''"
    by (auto simp: bare_config_def os_Getenv_def)
  with d have two: "\<exists>c. fst (NewClient ?G ?P ?N) = Inr c \<and>
        Address (config c) = ''envhost'' \<and> Scheme (config c) = ''gopher'' \<and>
        Stack (config c) = ''env/stack''"
    by blast
  have addr: "Address (spec_filled [(''watson_SCHEME'', ''https'')] ?P ?H)
      = ''http'' @ ''://'' @ ''h''"
    by (simp add: spec_filled_def bare_config_def)
  from NewClient_explicit_over_environment [of "[(''watson_SCHEME'', ''https'')]" ?P ?H
      "''http''" "''h''"] addr no_sep_http
  have three: "\<exists>c. fst (NewClient [(''watson_SCHEME'', ''https'')] ?P ?H) = Inr c \<and>
        Address (config c) = ''h'' \<and> Scheme (config c) = ''http''"
    by auto
  have ex: "Address (bare_config ''myhost:8080'' [] []) = ''myhost:8080'' \<and>
      Scheme (bare_config ''myhost:8080'' [] []) = [] \<and>
      os_Getenv [(''watson_SCHEME'', ''http'')] ''watson_SCHEME'' = ''http''"
    by (simp add: bare_config_def os_Getenv_def)
  from NewClient_explicit_over_environment [of "[(''watson_SCHEME'', ''http'')]" ?P
      "bare_config ''myhost:8080'' [] []"] ex
  have four: "\<exists>c. fst (NewClient [(''watson_SCHEME'', ''http'')] ?P
             (bare_config ''myhost:8080'' [] [])) = Inr c \<and>
        Address (config c) = ''myhost:8080'' \<and> Scheme (config c) = ''http''"
    by blast
  from one two three four show ?thesis by blast
qed

text \<open>
  C10 as stated: whenever the address embeds a prefix, the caller's \<open>Address\<close> and
  \<open>Scheme\<close> are rewritten to the split values. With the address \<open>ftp://h\<close> the function
  returns its error before it assigns either field.
\<close>

theorem NewClient_split_counterexample:
  "\<not> (\<forall>environ pooled cfg p rest.
         Address cfg = p @ ''://'' @ rest \<and> (\<nexists>a b. p = a @ ''://'' @ b)
         \<longrightarrow> Address (snd (NewClient environ pooled cfg)) = rest \<and>
             Scheme (snd (NewClient environ pooled cfg)) = p)"
proof
  assume claim: "\<forall>environ pooled cfg p rest.
         Address cfg = p @ ''://'' @ rest \<and> (\<nexists>a b. p = a @ ''://'' @ b)
         \<longrightarrow> Address (snd (NewClient environ pooled cfg)) = rest \<and>
             Scheme (snd (NewClient environ pooled cfg)) = p"
  let ?P = "static_client (plain_response 200)"
  let ?cfg = "bare_config ''ftp://h'' [] []"
  have "Address ?cfg = ''ftp'' @ ''://'' @ ''h''" by (simp add: bare_config_def)
  moreover have "\<nexists>a b. ''ftp'' = a @ ''://'' @ b"
    by (rule no_sep_without_colon) simp
  ultimately have "Address (snd (NewClient [] ?P ?cfg)) = ''h''"
    using claim by blast
  then show False
    by (simp add: NewClient_def DefaultConfig_def os_Getenv_def bare_config_def
        strings_SplitN_def make_headers_def Let_def)
qed

text \<open>
  C10 (as amended). \<open>NewClient\<close> writes to the caller's \<open>Config\<close>. After it returns,
  every empty field holds its default (the environment value, \<open>https\<close>, the pooled
  client). When the address embedded \<open>http://\<close> or \<open>https://\<close>, \<open>Scheme\<close> holds the prefix
  and \<open>Address\<close> the remainder. When it embedded any other prefix, the function has
  failed and only the defaults have been written: \<open>Address\<close> still holds the prefix.
\<close>

theorem NewClient_mutates_config:
  "((\<nexists>a b. Address (spec_filled environ pooled cfg) = a @ ''://'' @ b) \<longrightarrow>
      snd (NewClient environ pooled cfg) = spec_filled environ pooled cfg) \<and>
   (Address (spec_filled environ pooled cfg) = p @ ''://'' @ rest \<and>
    (\<nexists>a b. p = a @ ''://'' @ b) \<longrightarrow>
      snd (NewClient environ pooled cfg) =
        (if p = ''http'' \<or> p = ''https''
         then (spec_filled environ pooled cfg)\<lparr>Scheme := p, Address := rest\<rparr>
         else spec_filled environ pooled cfg))"
proof (intro conjI impI)
  assume "\<nexists>a b. Address (spec_filled environ pooled cfg) = a @ ''://'' @ b"
  from NewClient_no_prefix [OF this]
  show "snd (NewClient environ pooled cfg) = spec_filled environ pooled cfg" by simp
next
  assume "Address (spec_filled environ pooled cfg) = p @ ''://'' @ rest \<and>
    (\<nexists>a b. p = a @ ''://'' @ b)"
  then have "Address (spec_filled environ pooled cfg) = p @ ''://'' @ rest"
    and "\<nexists>a b. p = a @ ''://'' @ b" by simp_all
  from NewClient_prefix [OF this]
  show "snd (NewClient environ pooled cfg) =
        (if p = ''http'' \<or> p = ''https''
         then (spec_filled environ pooled cfg)\<lparr>Scheme := p, Address := rest\<rparr>
         else spec_filled environ pooled cfg)"
    by (simp add: Let_def)
qed

text \<open>
  An empty configuration filled from the environment, an address split at \<open>http://\<close>,
  and the address \<open>ftp://h\<close> left as it was.
\<close>

theorem NewClient_mutates_config_witness:
  "snd (NewClient [(''watson_ADDRESS'', ''envhost'')] (static_client (plain_response 200))
         (bare_config [] [] []))
     = \<lparr>Address = ''envhost'', Scheme = ''https'', Stack = [],
        HttpClient = Some (static_client (plain_response 200))\<rparr> \<and>
   snd (NewClient [] (static_client (plain_response 200)) (bare_config ''http://h'' ''https'' []))
     = \<lparr>Address = ''h'', Scheme = ''http'', Stack = [],
        HttpClient = Some (static_client (plain_response 200))\<rparr> \<and>
   snd (NewClient [] (static_client (plain_response 200)) (bare_config ''ftp://h'' [] []))
     = \<lparr>Address = ''ftp://h'', Scheme = ''https'', Stack = [],
        HttpClient = Some (static_client (plain_response 200))\<rparr>"
proof -
  let ?P = "static_client (plain_response 200)"
  have f1: "spec_filled [(''watson_ADDRESS'', ''envhost'')] ?P (bare_config [] [] [])
      = \<lparr>Address = ''envhost'', Scheme = ''https'', Stack = [], HttpClient = Some ?P\<rparr>"
    by (simp add: spec_filled_def bare_config_def os_Getenv_def)
  have f2: "spec_filled [] ?P (bare_config ''http://h'' ''https'' [])
      = \<lparr>Address = ''http'' @ ''://'' @ ''h'', Scheme = ''https'', Stack = [], HttpClient = Some ?P\<rparr>"
    by (simp add: spec_filled_def bare_config_def os_Getenv_def)
  have f3: "spec_filled [] ?P (bare_config ''ftp://h'' [] [])
      = \<lparr>Address = ''ftp'' @ ''://'' @ ''h'', Scheme = ''https'', Stack = [], HttpClient = Some ?P\<rparr>"
    by (simp add: spec_filled_def bare_config_def os_Getenv_def)
  have "\<nexists>a b. ''envhost'' = a @ ''://'' @ b"
    by (rule no_sep_without_slash) simp
  then have n1: "\<nexists>a b. Address (spec_filled [(''watson_ADDRESS'', ''envhost'')] ?P
      (bare_config [] [] [])) = a @ ''://'' @ b"
    by (simp add: f1)
  have n3: "\<nexists>a b. ''ftp'' = a @ ''://'' @ b"
    by (rule no_sep_without_colon) simp
  have one: "snd (NewClient [(''watson_ADDRESS'', ''envhost'')] ?P (bare_config [] [] []))
     = \<lparr>Address = ''envhost'', Scheme = ''https'', Stack = [], HttpClient = Some ?P\<rparr>"
    using NewClient_mutates_config [of "[(''watson_ADDRESS'', ''envhost'')]" ?P
        "bare_config [] [] []"] n1 f1 by simp
  have two: "snd (NewClient [] ?P (bare_config ''http://h'' ''https'' []))
     = \<lparr>Address = ''h'', Scheme = ''http'', Stack = [], HttpClient = Some ?P\<rparr>"
    using NewClient_mutates_config [of "[]" ?P "bare_config ''http://h'' ''https'' []"
        "''http''" "''h''"] no_sep_http
    unfolding f2 by simp
  have three: "snd (NewClient [] ?P (bare_config ''ftp://h'' [] []))
     = \<lparr>Address = ''ftp://h'', Scheme = ''https'', Stack = [], HttpClient = Some ?P\<rparr>"
    using NewClient_mutates_config [of "[]" ?P "bare_config ''ftp://h'' [] []"
        "''ftp''" "''h''"] n3
    unfolding f3 by simp
  from one two three show ?thesis by blast
qed

section \<open>The two operations against a response\<close>

lemma test_client_doRequest:
  "doRequest any_url (test_client resp) path idle_net =
     (Inr resp,
      \<lparr>issued = [\<lparr>Method = ''GET'', RawURL = path, URL_Scheme = ''http'',
                   URL_Host = ''127.0.0.1:8080'',
                   Header = [(''X-Watson-Stack'', [''frontend/dev''])]\<rparr>],
       open_bodies = 1\<rparr>)"
  by (simp add: doRequest_def http_NewRequest_def any_url_def test_client_def http_Do_def
      static_client_def idle_net_def)

lemma valid_example: "validateStackName ''hello/world'' = None"
  by (simp add: validateStackName_def strings_Count.simps)

lemma invalid_example: "validateStackName ''hello'' = Some (InvalidStackName ''hello'')"
  by (simp add: validateStackName_def strings_Count.simps)

text \<open>
  C6. For a stack name that passes validation, when the request is answered with the
  status 404, \<open>GetOutputs\<close> and \<open>GetStack\<close> return \<open>(nil, nil)\<close>: no value and no error.
  The body of the response has been closed.
\<close>

theorem not_found_is_absent:
  "(validateStackName stack = None \<and>
    doRequest url_error c (''/v1/projects/'' @ stack @ ''/outputs/'') net = (Inr resp, net') \<and>
    StatusCode resp = 404 \<longrightarrow>
      GetOutputs url_error parse_float c stack net = (Inr None, closeResponseBody net')) \<and>
   (validateStackName stack = None \<and>
    doRequest url_error c (''/v1/projects/'' @ stack @ ''/'') net = (Inr resp, net') \<and>
    StatusCode resp = 404 \<longrightarrow>
      GetStack url_error decode_Stack c stack net = (Inr None, closeResponseBody net'))"
  by (simp add: GetOutputs_def GetStack_def Let_def)

text \<open>Both operations against a server that answers 404 to everything.\<close>

theorem not_found_is_absent_witness:
  "GetOutputs any_url small_ParseFloat (test_client (plain_response 404)) ''hello/world'' idle_net
     = (Inr None,
        \<lparr>issued = [\<lparr>Method = ''GET'', RawURL = ''/v1/projects/hello/world/outputs/'',
                     URL_Scheme = ''http'', URL_Host = ''127.0.0.1:8080'',
                     Header = [(''X-Watson-Stack'', [''frontend/dev''])]\<rparr>],
         open_bodies = 0\<rparr>) \<and>
   GetStack any_url reject_Stack (test_client (plain_response 404)) ''hello/world'' idle_net
     = (Inr None,
        \<lparr>issued = [\<lparr>Method = ''GET'', RawURL = ''/v1/projects/hello/world/'',
                     URL_Scheme = ''http'', URL_Host = ''127.0.0.1:8080'',
                     Header = [(''X-Watson-Stack'', [''frontend/dev''])]\<rparr>],
         open_bodies = 0\<rparr>)"
  using not_found_is_absent [of "''hello/world''" any_url "test_client (plain_response 404)"
      idle_net "plain_response 404" _ small_ParseFloat reject_Stack]
    valid_example
    test_client_doRequest [of "plain_response 404" "''/v1/projects/'' @ ''hello/world'' @ ''/outputs/''"]
    test_client_doRequest [of "plain_response 404" "''/v1/projects/'' @ ''hello/world'' @ ''/''"]
  by (simp add: plain_response_def closeResponseBody_def)

text \<open>
  C7. For a stack name that passes validation, when the request is answered with a status
  other than 200 and 404, \<open>GetOutputs\<close> and \<open>GetStack\<close> fail with \<open>UnexpectedStatus\<close>
  carrying that status code.
\<close>

theorem other_status_is_unexpected:
  "(validateStackName stack = None \<and>
    doRequest url_error c (''/v1/projects/'' @ stack @ ''/outputs/'') net = (Inr resp, net') \<and>
    StatusCode resp \<noteq> 200 \<and> StatusCode resp \<noteq> 404 \<longrightarrow>
      GetOutputs url_error parse_float c stack net
        = (Inl (UnexpectedStatus (StatusCode resp)), closeResponseBody net')) \<and>
   (validateStackName stack = None \<and>
    doRequest url_error c (''/v1/projects/'' @ stack @ ''/'') net = (Inr resp, net') \<and>
    StatusCode resp \<noteq> 200 \<and> StatusCode resp \<noteq> 404 \<longrightarrow>
      GetStack url_error decode_Stack c stack net
        = (Inl (UnexpectedStatus (StatusCode resp)), closeResponseBody net'))"
  by (simp add: GetOutputs_def GetStack_def Let_def)

text \<open>Both operations against a server that answers 503 to everything.\<close>

theorem other_status_is_unexpected_witness:
  "fst (GetOutputs any_url small_ParseFloat (test_client (plain_response 503)) ''hello/world'' idle_net)
     = Inl (UnexpectedStatus 503) \<and>
   fst (GetStack any_url reject_Stack (test_client (plain_response 503)) ''hello/world'' idle_net)
     = Inl (UnexpectedStatus 503)"
  using other_status_is_unexpected [of "''hello/world''" any_url "test_client (plain_response 503)"
      idle_net "plain_response 503" _ small_ParseFloat reject_Stack]
    valid_example
    test_client_doRequest [of "plain_response 503" "''/v1/projects/'' @ ''hello/world'' @ ''/outputs/''"]
    test_client_doRequest [of "plain_response 503" "''/v1/projects/'' @ ''hello/world'' @ ''/''"]
  by (simp add: plain_response_def)

text \<open>
  C8. For a string that fails validation, \<open>GetOutputs\<close> and \<open>GetStack\<close> return the
  \<open>InvalidStackName\<close> error for that string and leave the network as it was: no request
  has been handed to the HTTP client.
\<close>

theorem invalid_name_sends_nothing:
  "validateStackName stack \<noteq> None \<longrightarrow>
     GetOutputs url_error parse_float c stack net = (Inl (InvalidStackName stack), net) \<and>
     GetStack url_error decode_Stack c stack net = (Inl (InvalidStackName stack), net)"
  by (auto simp: GetOutputs_def GetStack_def validateStackName_def)

text \<open>The name \<open>hello\<close> of the acceptance test: the log of requests stays empty.\<close>

theorem invalid_name_sends_nothing_witness:
  "GetOutputs any_url small_ParseFloat (test_client (plain_response 200)) ''hello'' idle_net
     = (Inl (InvalidStackName ''hello''), idle_net) \<and>
   GetStack any_url reject_Stack (test_client (plain_response 200)) ''hello'' idle_net
     = (Inl (InvalidStackName ''hello''), idle_net) \<and>
   issued idle_net = []"
  using invalid_name_sends_nothing [of "''hello''" any_url small_ParseFloat
      "test_client (plain_response 200)" idle_net reject_Stack] invalid_example
  by (simp add: idle_net_def)

section \<open>Decoded outputs\<close>

lemma Output_field_sensitive: "Output_field ''sensitive'' = None"
  by (simp add: Output_field_def Output_fields_def foldName_def ascii_upper_def)

lemma Output_field_value: "Output_field ''value'' = Some ''Value''"
  by (simp add: Output_field_def Output_fields_def foldName_def ascii_upper_def)

text \<open>
  C2. The claim asks for four populated fields. \<open>Output\<close> declares three, the key
  \<open>sensitive\<close> names none of them, and the decoder skips it whatever its value: the
  bodies with \<open>"sensitive": true\<close> and with \<open>"sensitive": false\<close> decode to the same
  \<open>Outputs\<close>, in which nothing records the flag.
\<close>

theorem GetOutputs_drops_sensitive:
  "Output_set_field parse_float out ''sensitive'' j = Inr out \<and>
   fst (GetOutputs any_url parse_float
          (test_client \<lparr>StatusCode = 200,
             Body = Some (JObject [(''hostname'',
                      JObject [(''value'', JString ''x''), (''sensitive'', JBool True)])])\<rparr>)
          ''backend/load-balancers'' idle_net)
     = Inr (Some [(''hostname'', \<lparr>Value = GoString ''x'', Deprecated = [], Warning = []\<rparr>)]) \<and>
   fst (GetOutputs any_url parse_float
          (test_client \<lparr>StatusCode = 200,
             Body = Some (JObject [(''hostname'',
                      JObject [(''value'', JString ''x''), (''sensitive'', JBool False)])])\<rparr>)
          ''backend/load-balancers'' idle_net)
     = Inr (Some [(''hostname'', \<lparr>Value = GoString ''x'', Deprecated = [], Warning = []\<rparr>)])"
proof -
  have valid: "validateStackName ''backend/load-balancers'' = None"
    by (simp add: validateStackName_def strings_Count.simps)
  have skip: "Output_set_field parse_float out ''sensitive'' j = Inr out" for out j
    by (simp add: Output_set_field_def Output_field_sensitive)
  have dec: "json_Decode_Outputs parse_float
      (Some (JObject [(''hostname'', JObject [(''value'', JString ''x''), (''sensitive'', JBool b)])]))
      = Inr [(''hostname'', \<lparr>Value = GoString ''x'', Deprecated = [], Warning = []\<rparr>)]" for b
    by (simp add: json_Decode_Outputs_def decode_Output_def zero_Output_def
        Output_set_field_def Output_field_value Output_field_sensitive)
  have run: "fst (GetOutputs any_url parse_float
          (test_client \<lparr>StatusCode = 200,
             Body = Some (JObject [(''hostname'',
                      JObject [(''value'', JString ''x''), (''sensitive'', JBool b)])])\<rparr>)
          ''backend/load-balancers'' idle_net)
     = Inr (Some [(''hostname'', \<lparr>Value = GoString ''x'', Deprecated = [], Warning = []\<rparr>)])" for b
    using test_client_doRequest [of "\<lparr>StatusCode = 200,
             Body = Some (JObject [(''hostname'',
                      JObject [(''value'', JString ''x''), (''sensitive'', JBool b)])])\<rparr>"
        "''/v1/projects/'' @ ''backend/load-balancers'' @ ''/outputs/''"]
    by (simp add: GetOutputs_def valid dec Let_def)
  from skip run show ?thesis by blast
qed

text \<open>
  A number that \<open>ParseFloat\<close> rejects as out of range fails the whole decoding, as it does
  in \<open>encoding/json\<close>, also when it lies inside an array of the value.
\<close>

lemma json_Decode_Outputs_range_error:
  "parse_float lit = None \<Longrightarrow>
     json_Decode_Outputs parse_float
       (Some (JObject [(k, JObject [(''value'', JArray [JNull, JNumber lit])])]))
     = Inl (UnmarshalTypeError (''number '' @ lit) ''float64'')"
  by (simp add: json_Decode_Outputs_def decode_Output_def zero_Output_def
      Output_set_field_def Output_field_value)

lemma decode_entries_distinct:
  "decode_entries parse_float m kvs = Inr m' \<Longrightarrow> distinct (map fst m)
     \<Longrightarrow> distinct (map fst m')"
proof (induction kvs arbitrary: m)
  case Nil
  then show ?case by simp
next
  case (Cons kv kvs)
  obtain key j where kv: "kv = (key, j)" by (cases kv)
  with Cons.prems(1) obtain out where out: "decode_Output parse_float j = Inr out"
    and rest: "decode_entries parse_float (AList.update key out m) kvs = Inr m'"
    by (auto split: sum.splits)
  from Cons.prems(2) have "distinct (map fst (AList.update key out m))"
    by (rule distinct_update)
  with Cons.IH rest show ?case by blast
qed

lemma json_Decode_Outputs_distinct:
  "json_Decode_Outputs parse_float body = Inr outs \<Longrightarrow> distinct (map fst outs)"
  by (auto simp: json_Decode_Outputs_def split: option.splits json.splits
      dest: decode_entries_distinct)

lemma GetOutputs_distinct:
  "GetOutputs url_error parse_float c stack net = (Inr (Some outs), net')
     \<Longrightarrow> distinct (map fst outs)"
  by (auto simp: GetOutputs_def Let_def split: option.splits sum.splits prod.splits if_splits
      dest: json_Decode_Outputs_distinct)

section \<open>Reading the outputs into the data source\<close>

lemma Read_entry_fst:
  "fst (Read_entry sens k v acc) =
     (case Value v of
        GoString s \<Rightarrow> (fst acc)(k \<mapsto> \<lparr>attr_value = s, attr_deprecated = Deprecated v,
                                     attr_warning = Warning v, attr_sensitive = sens v\<rparr>)
      | _ \<Rightarrow> fst acc)"
  by (cases acc) (simp add: Read_entry_def split: go_value.splits)

lemma Read_entry_HasError:
  "HasError (snd (Read_entry sens k v acc)) = HasError (snd acc)"
  by (cases acc) (simp add: Read_entry_def HasError_def split: go_value.splits)

lemma Read_entry_keeps:
  "d \<in> set (snd acc) \<Longrightarrow> d \<in> set (snd (Read_entry sens k v acc))"
  by (cases acc) (simp add: Read_entry_def split: go_value.splits)

lemma Read_entry_ignored:
  "\<forall>s. Value v \<noteq> GoString s \<Longrightarrow>
     IgnoredOutput k (go_type_name (Value v)) \<in> set (snd (Read_entry sens k v acc))"
  by (cases acc) (simp add: Read_entry_def split: go_value.splits)

lemma Read_entry_source:
  "IgnoredOutput k t \<in> set (snd (Read_entry sens k' v acc)) \<Longrightarrow>
     IgnoredOutput k t \<in> set (snd acc) \<or> (k = k' \<and> (\<forall>s. Value v \<noteq> GoString s))"
  by (cases acc) (auto simp: Read_entry_def split: go_value.splits if_splits)

lemma Read_loop_Cons:
  "Read_loop sens (kv # kvs) acc = Read_loop sens kvs (Read_entry sens (fst kv) (snd kv) acc)"
  by (cases kv) simp

lemma Read_loop_HasError:
  "HasError (snd (Read_loop sens outs acc)) = HasError (snd acc)"
  by (induction outs arbitrary: acc) (simp_all add: Read_loop_Cons Read_entry_HasError)

lemma Read_loop_keeps:
  "d \<in> set (snd acc) \<Longrightarrow> d \<in> set (snd (Read_loop sens outs acc))"
  by (induction outs arbitrary: acc) (simp_all add: Read_loop_Cons Read_entry_keeps)

lemma Read_loop_ignored:
  "(k, v) \<in> set outs \<Longrightarrow> \<forall>s. Value v \<noteq> GoString s \<Longrightarrow>
     IgnoredOutput k (go_type_name (Value v)) \<in> set (snd (Read_loop sens outs acc))"
proof (induction outs arbitrary: acc)
  case Nil
  then show ?case by simp
next
  case (Cons kv outs)
  obtain k' v' where kv: "kv = (k', v')" by (cases kv)
  show ?case
  proof (cases "(k, v) = (k', v')")
    case True
    with kv Cons.prems(2) show ?thesis
      by (simp add: Read_loop_keeps Read_entry_ignored)
  next
    case False
    with kv Cons.prems(1) have "(k, v) \<in> set outs" by auto
    from Cons.IH [OF this Cons.prems(2)] kv show ?thesis by simp
  qed
qed

lemma Read_loop_source:
  "IgnoredOutput k t \<in> set (snd (Read_loop sens outs acc)) \<Longrightarrow>
     IgnoredOutput k t \<in> set (snd acc) \<or>
     (\<exists>v. (k, v) \<in> set outs \<and> (\<forall>s. Value v \<noteq> GoString s))"
proof (induction outs arbitrary: acc)
  case Nil
  then show ?case by simp
next
  case (Cons kv outs)
  obtain k' v' where kv: "kv = (k', v')" by (cases kv)
  from Cons.prems kv
  have "IgnoredOutput k t \<in> set (snd (Read_loop sens outs (Read_entry sens k' v' acc)))"
    by simp
  from Cons.IH [OF this]
  consider "IgnoredOutput k t \<in> set (snd (Read_entry sens k' v' acc))"
    | "\<exists>v. (k, v) \<in> set outs \<and> (\<forall>s. Value v \<noteq> GoString s)"
    by blast
  then show ?case
  proof cases
    case 1
    from Read_entry_source [OF this] kv show ?thesis by auto
  next
    case 2
    then show ?thesis by auto
  qed
qed

lemma Read_loop_untouched:
  "k \<notin> fst ` set outs \<Longrightarrow> fst (Read_loop sens outs acc) k = fst acc k"
proof (induction outs arbitrary: acc)
  case Nil
  then show ?case by simp
next
  case (Cons kv outs)
  obtain k' v' where kv: "kv = (k', v')" by (cases kv)
  with Cons.prems have "k \<noteq> k'" "k \<notin> fst ` set outs" by auto
  with Cons.IH [of "Read_entry sens k' v' acc"] kv show ?case
    by (simp add: Read_entry_fst split: go_value.splits)
qed

lemma Read_loop_entry:
  "distinct (map fst outs) \<Longrightarrow> (k, v) \<in> set outs \<Longrightarrow>
     fst (Read_loop sens outs acc) k = fst (Read_entry sens k v acc) k"
proof (induction outs arbitrary: acc)
  case Nil
  then show ?case by simp
next
  case (Cons kv outs)
  obtain k' v' where kv: "kv = (k', v')" by (cases kv)
  show ?case
  proof (cases "(k, v) = (k', v')")
    case True
    from Cons.prems(1) kv True have "k \<notin> fst ` set outs" by auto
    from Read_loop_untouched [OF this] kv True show ?thesis by simp
  next
    case False
    with kv Cons.prems(2) have mem: "(k, v) \<in> set outs" by auto
    from Cons.prems(1) have dist: "distinct (map fst outs)" by simp
    from mem Cons.prems(1) kv have "k \<noteq> k'" by (auto simp: image_iff)
    then have "fst (Read_entry sens k v (Read_entry sens k' v' acc)) k
        = fst (Read_entry sens k v acc) k"
      by (simp add: Read_entry_fst split: go_value.splits)
    with Cons.IH [OF dist mem, of "Read_entry sens k' v' acc"] kv show ?thesis by simp
  qed
qed

lemma distinct_keys_unique:
  "distinct (map fst outs) \<Longrightarrow> (k, v) \<in> set outs \<Longrightarrow> (k, v') \<in> set outs \<Longrightarrow> v = v'"
  by (meson eq_key_imp_eq_value)


text \<open>
  C9. When \<open>GetOutputs\<close> returns decoded outputs, \<open>Read\<close> saves a model and adds no
  error diagnostic. Every output whose value is not a string is reported by an
  \<open>ignored output\<close> warning that carries its key and the Go type of its value
  (\<open><nil>\<close>, \<open>bool\<close>, \<open>float64\<close>, \<open>[]interface {}\<close> or \<open>map[string]interface {}\<close>), and
  is left out of the saved map. Every output whose value is a string is in the saved map
  under its key, with that string, its \<open>deprecated\<close> and \<open>warning\<close> texts and whatever
  \<open>v.Sensitive\<close> yields, and no \<open>ignored output\<close> warning carries its key.
\<close>

theorem Read_ignores_non_strings:
  "GetOutputs url_error parse_float c stack net = (Inr (Some outs), net') \<longrightarrow>
     (\<exists>diags model.
        Read url_error parse_float sens c stack net = ((diags, Some model), net') \<and>
        \<not> HasError diags \<and>
        (\<forall>(k, v) \<in> set outs.
           (Value v = GoNil \<longrightarrow> IgnoredOutput k ''<nil>'' \<in> set diags) \<and>
           (\<forall>b. Value v = GoBool b \<longrightarrow> IgnoredOutput k ''bool'' \<in> set diags) \<and>
           (\<forall>x. Value v = GoFloat64 x \<longrightarrow> IgnoredOutput k ''float64'' \<in> set diags) \<and>
           (\<forall>xs. Value v = GoSlice xs \<longrightarrow> IgnoredOutput k ''[]interface {}'' \<in> set diags) \<and>
           (\<forall>m. Value v = GoMap m \<longrightarrow>
              IgnoredOutput k ''map[string]interface {}'' \<in> set diags) \<and>
           ((\<forall>s. Value v \<noteq> GoString s) \<longrightarrow> Model_Outputs model k = None) \<and>
           (\<forall>s. Value v = GoString s \<longrightarrow>
              Model_Outputs model k =
                Some \<lparr>attr_value = s, attr_deprecated = Deprecated v,
                      attr_warning = Warning v, attr_sensitive = sens v\<rparr> \<and>
              (\<forall>t. IgnoredOutput k t \<notin> set diags))))"
proof
  assume got: "GetOutputs url_error parse_float c stack net = (Inr (Some outs), net')"
  from GetOutputs_distinct [OF got] have dist: "distinct (map fst outs)" .
  define acc where "acc = Read_loop sens outs (Map.empty, [])"
  define model where
    "model = \<lparr>Model_Id = stack, Model_Stack = stack, Model_Outputs = fst acc\<rparr>"
  have run: "Read url_error parse_float sens c stack net = ((snd acc, Some model), net')"
    using got by (simp add: Read_def acc_def model_def split: prod.splits)
  have "HasError (snd acc) = HasError (snd (Map.empty :: string \<rightharpoonup> ObjectValue, []))"
    unfolding acc_def by (rule Read_loop_HasError)
  then have noerr: "\<not> HasError (snd acc)"
    by (simp add: HasError_def)
  have each: "(Value v = GoNil \<longrightarrow> IgnoredOutput k ''<nil>'' \<in> set (snd acc)) \<and>
           (\<forall>b. Value v = GoBool b \<longrightarrow> IgnoredOutput k ''bool'' \<in> set (snd acc)) \<and>
           (\<forall>x. Value v = GoFloat64 x \<longrightarrow> IgnoredOutput k ''float64'' \<in> set (snd acc)) \<and>
           (\<forall>xs. Value v = GoSlice xs \<longrightarrow> IgnoredOutput k ''[]interface {}'' \<in> set (snd acc)) \<and>
           (\<forall>m. Value v = GoMap m \<longrightarrow>
              IgnoredOutput k ''map[string]interface {}'' \<in> set (snd acc)) \<and>
           ((\<forall>s. Value v \<noteq> GoString s) \<longrightarrow> Model_Outputs model k = None) \<and>
           (\<forall>s. Value v = GoString s \<longrightarrow>
              Model_Outputs model k =
                Some \<lparr>attr_value = s, attr_deprecated = Deprecated v,
                      attr_warning = Warning v, attr_sensitive = sens v\<rparr> \<and>
              (\<forall>t. IgnoredOutput k t \<notin> set (snd acc)))"
    if mem: "(k, v) \<in> set outs" for k v
  proof -
    have named: "IgnoredOutput k (go_type_name (Value v)) \<in> set (snd acc)"
      if "\<forall>s. Value v \<noteq> GoString s"
      unfolding acc_def using mem that by (rule Read_loop_ignored)
    have saved: "Model_Outputs model k = fst (Read_entry sens k v (Map.empty, [])) k"
      unfolding model_def acc_def using Read_loop_entry [OF dist mem] by simp
    have quiet: "IgnoredOutput k t \<notin> set (snd acc)" if str: "Value v = GoString s" for s t
    proof
      assume "IgnoredOutput k t \<in> set (snd acc)"
      from Read_loop_source [OF this [unfolded acc_def]]
      obtain v' where v': "(k, v') \<in> set outs" "\<forall>s. Value v' \<noteq> GoString s" by auto
      from distinct_keys_unique [OF dist mem v'(1)] v'(2) str show False by simp
    qed
    have nil: "Value v = GoNil \<longrightarrow> IgnoredOutput k ''<nil>'' \<in> set (snd acc)"
      using named by auto
    have bool: "\<forall>b. Value v = GoBool b \<longrightarrow> IgnoredOutput k ''bool'' \<in> set (snd acc)"
      using named by auto
    have num: "\<forall>x. Value v = GoFloat64 x \<longrightarrow> IgnoredOutput k ''float64'' \<in> set (snd acc)"
      using named by auto
    have slice: "\<forall>xs. Value v = GoSlice xs \<longrightarrow>
        IgnoredOutput k ''[]interface {}'' \<in> set (snd acc)"
      using named by auto
    have map: "\<forall>m. Value v = GoMap m \<longrightarrow>
        IgnoredOutput k ''map[string]interface {}'' \<in> set (snd acc)"
      using named by auto
    have dropped: "(\<forall>s. Value v \<noteq> GoString s) \<longrightarrow> Model_Outputs model k = None"
      unfolding saved by (simp add: Read_entry_fst split: go_value.splits)
    have kept: "\<forall>s. Value v = GoString s \<longrightarrow>
              Model_Outputs model k =
                Some \<lparr>attr_value = s, attr_deprecated = Deprecated v,
                      attr_warning = Warning v, attr_sensitive = sens v\<rparr> \<and>
              (\<forall>t. IgnoredOutput k t \<notin> set (snd acc))"
      using quiet unfolding saved by (simp add: Read_entry_fst)
    from nil bool num slice map dropped kept show ?thesis by blast
  qed
  have all: "\<forall>(k, v) \<in> set outs.
           (Value v = GoNil \<longrightarrow> IgnoredOutput k ''<nil>'' \<in> set (snd acc)) \<and>
           (\<forall>b. Value v = GoBool b \<longrightarrow> IgnoredOutput k ''bool'' \<in> set (snd acc)) \<and>
           (\<forall>x. Value v = GoFloat64 x \<longrightarrow> IgnoredOutput k ''float64'' \<in> set (snd acc)) \<and>
           (\<forall>xs. Value v = GoSlice xs \<longrightarrow> IgnoredOutput k ''[]interface {}'' \<in> set (snd acc)) \<and>
           (\<forall>m. Value v = GoMap m \<longrightarrow>
              IgnoredOutput k ''map[string]interface {}'' \<in> set (snd acc)) \<and>
           ((\<forall>s. Value v \<noteq> GoString s) \<longrightarrow> Model_Outputs model k = None) \<and>
           (\<forall>s. Value v = GoString s \<longrightarrow>
              Model_Outputs model k =
                Some \<lparr>attr_value = s, attr_deprecated = Deprecated v,
                      attr_warning = Warning v, attr_sensitive = sens v\<rparr> \<and>
              (\<forall>t. IgnoredOutput k t \<notin> set (snd acc)))"
  proof (intro ballI)
    fix kv
    assume kv: "kv \<in> set outs"
    obtain k v where eq: "kv = (k, v)" by (cases kv)
    from kv eq have "(k, v) \<in> set outs" by simp
    from each [OF this]
    show "case kv of (k, v) \<Rightarrow>
           (Value v = GoNil \<longrightarrow> IgnoredOutput k ''<nil>'' \<in> set (snd acc)) \<and>
           (\<forall>b. Value v = GoBool b \<longrightarrow> IgnoredOutput k ''bool'' \<in> set (snd acc)) \<and>
           (\<forall>x. Value v = GoFloat64 x \<longrightarrow> IgnoredOutput k ''float64'' \<in> set (snd acc)) \<and>
           (\<forall>xs. Value v = GoSlice xs \<longrightarrow> IgnoredOutput k ''[]interface {}'' \<in> set (snd acc)) \<and>
           (\<forall>m. Value v = GoMap m \<longrightarrow>
              IgnoredOutput k ''map[string]interface {}'' \<in> set (snd acc)) \<and>
           ((\<forall>s. Value v \<noteq> GoString s) \<longrightarrow> Model_Outputs model k = None) \<and>
           (\<forall>s. Value v = GoString s \<longrightarrow>
              Model_Outputs model k =
                Some \<lparr>attr_value = s, attr_deprecated = Deprecated v,
                      attr_warning = Warning v, attr_sensitive = sens v\<rparr> \<and>
              (\<forall>t. IgnoredOutput k t \<notin> set (snd acc)))"
      unfolding eq case_prod_conv .
  qed
  from run noerr all
  show "\<exists>diags model.
        Read url_error parse_float sens c stack net = ((diags, Some model), net') \<and>
        \<not> HasError diags \<and>
        (\<forall>(k, v) \<in> set outs.
           (Value v = GoNil \<longrightarrow> IgnoredOutput k ''<nil>'' \<in> set diags) \<and>
           (\<forall>b. Value v = GoBool b \<longrightarrow> IgnoredOutput k ''bool'' \<in> set diags) \<and>
           (\<forall>x. Value v = GoFloat64 x \<longrightarrow> IgnoredOutput k ''float64'' \<in> set diags) \<and>
           (\<forall>xs. Value v = GoSlice xs \<longrightarrow> IgnoredOutput k ''[]interface {}'' \<in> set diags) \<and>
           (\<forall>m. Value v = GoMap m \<longrightarrow>
              IgnoredOutput k ''map[string]interface {}'' \<in> set diags) \<and>
           ((\<forall>s. Value v \<noteq> GoString s) \<longrightarrow> Model_Outputs model k = None) \<and>
           (\<forall>s. Value v = GoString s \<longrightarrow>
              Model_Outputs model k =
                Some \<lparr>attr_value = s, attr_deprecated = Deprecated v,
                      attr_warning = Warning v, attr_sensitive = sens v\<rparr> \<and>
              (\<forall>t. IgnoredOutput k t \<notin> set diags)))"
    by blast
qed

lemma small_ParseFloat_3: "small_ParseFloat ''3'' = Some 3"
  by (simp add: small_ParseFloat_def digit_value_def)

lemma sample_decoded: "json_Decode_Outputs small_ParseFloat (Some sample_outputs_body)
    = Inr sample_outputs"
  by (simp add: json_Decode_Outputs_def sample_outputs_body_def sample_outputs_def
      decode_Output_def zero_Output_def Output_set_field_def Output_field_value
      Output_field_sensitive small_ParseFloat_3)

lemma sample_GetOutputs:
  "GetOutputs any_url small_ParseFloat
     (test_client \<lparr>StatusCode = 200, Body = Some sample_outputs_body\<rparr>)
     ''backend/load-balancers'' idle_net
   = (Inr (Some sample_outputs),
      \<lparr>issued = [\<lparr>Method = ''GET'', RawURL = ''/v1/projects/backend/load-balancers/outputs/'',
                   URL_Scheme = ''http'', URL_Host = ''127.0.0.1:8080'',
                   Header = [(''X-Watson-Stack'', [''frontend/dev''])]\<rparr>],
       open_bodies = 0\<rparr>)"
proof -
  have valid: "validateStackName ''backend/load-balancers'' = None"
    by (simp add: validateStackName_def strings_Count.simps)
  show ?thesis
    using test_client_doRequest [of "\<lparr>StatusCode = 200, Body = Some sample_outputs_body\<rparr>"
        "''/v1/projects/'' @ ''backend/load-balancers'' @ ''/outputs/''"]
    by (simp add: GetOutputs_def valid sample_decoded closeResponseBody_def Let_def)
qed

text \<open>
  The sample payload: \<open>hostname\<close> is returned and not reported; the five other outputs
  are reported, each with the type of its value, and are not returned.
\<close>

theorem Read_ignores_non_strings_witness:
  "\<exists>diags model net'.
     Read any_url small_ParseFloat never_sensitive
       (test_client \<lparr>StatusCode = 200, Body = Some sample_outputs_body\<rparr>)
       ''backend/load-balancers'' idle_net = ((diags, Some model), net') \<and>
     \<not> HasError diags \<and>
     IgnoredOutput ''count'' ''float64'' \<in> set diags \<and>
     IgnoredOutput ''enabled'' ''bool'' \<in> set diags \<and>
     IgnoredOutput ''owner'' ''<nil>'' \<in> set diags \<and>
     IgnoredOutput ''zones'' ''[]interface {}'' \<in> set diags \<and>
     IgnoredOutput ''tags'' ''map[string]interface {}'' \<in> set diags \<and>
     Model_Outputs model ''count'' = None \<and>
     Model_Outputs model ''hostname'' =
       Some \<lparr>attr_value = ''https://hello.example'', attr_deprecated = [],
             attr_warning = [], attr_sensitive = False\<rparr> \<and>
     IgnoredOutput ''hostname'' ''string'' \<notin> set diags"
proof -
  let ?c = "test_client \<lparr>StatusCode = 200, Body = Some sample_outputs_body\<rparr>"
  from Read_ignores_non_strings [of any_url small_ParseFloat ?c "''backend/load-balancers''"
      idle_net sample_outputs _ never_sensitive] sample_GetOutputs
  obtain diags model net' where
    run: "Read any_url small_ParseFloat never_sensitive ?c ''backend/load-balancers'' idle_net
            = ((diags, Some model), net')"
    and ok: "\<not> HasError diags"
    and each: "\<forall>(k, v) \<in> set sample_outputs.
           (Value v = GoNil \<longrightarrow> IgnoredOutput k ''<nil>'' \<in> set diags) \<and>
           (\<forall>b. Value v = GoBool b \<longrightarrow> IgnoredOutput k ''bool'' \<in> set diags) \<and>
           (\<forall>x. Value v = GoFloat64 x \<longrightarrow> IgnoredOutput k ''float64'' \<in> set diags) \<and>
           (\<forall>xs. Value v = GoSlice xs \<longrightarrow> IgnoredOutput k ''[]interface {}'' \<in> set diags) \<and>
           (\<forall>m. Value v = GoMap m \<longrightarrow>
              IgnoredOutput k ''map[string]interface {}'' \<in> set diags) \<and>
           ((\<forall>s. Value v \<noteq> GoString s) \<longrightarrow> Model_Outputs model k = None) \<and>
           (\<forall>s. Value v = GoString s \<longrightarrow>
              Model_Outputs model k =
                Some \<lparr>attr_value = s, attr_deprecated = Deprecated v,
                      attr_warning = Warning v, attr_sensitive = never_sensitive v\<rparr> \<and>
              (\<forall>t. IgnoredOutput k t \<notin> set diags))"
    by blast
  from each have
    "IgnoredOutput ''count'' ''float64'' \<in> set diags"
    "IgnoredOutput ''enabled'' ''bool'' \<in> set diags"
    "IgnoredOutput ''owner'' ''<nil>'' \<in> set diags"
    "IgnoredOutput ''zones'' ''[]interface {}'' \<in> set diags"
    "IgnoredOutput ''tags'' ''map[string]interface {}'' \<in> set diags"
    "Model_Outputs model ''count'' = None"
    "Model_Outputs model ''hostname'' =
       Some \<lparr>attr_value = ''https://hello.example'', attr_deprecated = [],
             attr_warning = [], attr_sensitive = False\<rparr>"
    "IgnoredOutput ''hostname'' ''string'' \<notin> set diags"
    by (auto simp: sample_outputs_def never_sensitive_def)
  with run ok show ?thesis by blast
qed

end
